theory Spec2Isabelle
  imports Main
begin

section \<open>Python strings\<close>

text \<open>
  A Python \<open>str\<close> is a sequence of Unicode code points, so a character is a natural
  number and a string a list of them.  ASCII literals are written \<open>u ''...''\<close>; the
  few non-ASCII literals of the program are given by their code points.
\<close>

type_synonym pychar = nat
type_synonym pystr = "nat list"

definition u :: "string \<Rightarrow> pystr" where
  "u s = map of_char s"

text \<open>The white-space code points of \<open>str.strip\<close>, \<open>str.split\<close> and of \<open>\s\<close>.\<close>

definition py_isspace :: "pychar \<Rightarrow> bool" where
  "py_isspace c \<longleftrightarrow>
     (9 \<le> c \<and> c \<le> 13) \<or> (28 \<le> c \<and> c \<le> 32) \<or> c = 133 \<or> c = 160 \<or> c = 5760 \<or>
     (8192 \<le> c \<and> c \<le> 8202) \<or> c = 8232 \<or> c = 8233 \<or> c = 8239 \<or> c = 8287 \<or> c = 12288"

definition py_lstrip :: "pystr \<Rightarrow> pystr" where
  "py_lstrip s = dropWhile py_isspace s"

definition py_rstrip :: "pystr \<Rightarrow> pystr" where
  "py_rstrip s = rev (dropWhile py_isspace (rev s))"

definition py_strip :: "pystr \<Rightarrow> pystr" where
  "py_strip s = py_lstrip (py_rstrip s)"

text \<open>\<open>s.split()\<close>: the maximal runs of non-white-space characters, \<open>cur\<close> being the run
  that is being read.\<close>

fun py_split_from :: "pystr \<Rightarrow> pystr \<Rightarrow> pystr list" where
  "py_split_from cur [] = (if cur = [] then [] else [cur])"
| "py_split_from cur (c # cs) =
     (if py_isspace c then (if cur = [] then py_split_from [] cs else cur # py_split_from [] cs)
      else py_split_from (cur @ [c]) cs)"

definition py_split :: "pystr \<Rightarrow> pystr list" where
  "py_split s = py_split_from [] s"

text \<open>\<open>sep.join(xs)\<close>.\<close>

fun py_join :: "pystr \<Rightarrow> pystr list \<Rightarrow> pystr" where
  "py_join sep [] = []"
| "py_join sep [x] = x"
| "py_join sep (x # y # ys) = x @ sep @ py_join sep (y # ys)"

text \<open>\<open>s * n\<close>: a count that is not positive gives the empty string.\<close>

definition py_repeat :: "pystr \<Rightarrow> int \<Rightarrow> pystr" where
  "py_repeat s n = concat (replicate (nat n) s)"

text \<open>
  \<open>str.lower\<close> on the code points whose lower-case form contains an ASCII letter: the
  ASCII capitals, U+0130 (which becomes \<open>i\<close> followed by U+0307) and U+212A (the Kelvin
  sign, which becomes \<open>k\<close>).  The program compares lower-cased strings with ASCII
  literals only, and every other code point is left as it is.
\<close>

definition lower_char :: "pychar \<Rightarrow> pystr" where
  "lower_char c =
     (if 65 \<le> c \<and> c \<le> 90 then [c + 32]
      else if c = 304 then [105, 775]
      else if c = 8490 then [107]
      else [c])"

definition py_lower :: "pystr \<Rightarrow> pystr" where
  "py_lower s = concat (map lower_char s)"

text \<open>
  A decimal digit, for \<open>\d\<close> in a pattern on \<open>str\<close> and for \<open>int\<close>, is a code point of the
  Unicode category Nd.  These code points come in runs of ten, one run for each script,
  with the values 0 to 9 in order; \<open>decimal_zeros\<close> lists the first code point of every
  run (Unicode 14.0, the character database of CPython 3.11).
\<close>

definition decimal_zeros :: "pychar list" where
  "decimal_zeros =
     [48, 1632, 1776, 1984, 2406, 2534, 2662, 2790, 2918, 3046,
      3174, 3302, 3430, 3558, 3664, 3792, 3872, 4160, 4240, 6112,
      6160, 6470, 6608, 6784, 6800, 6992, 7088, 7232, 7248, 42528,
      43216, 43264, 43472, 43504, 43600, 44016, 65296, 66720, 68912, 69734,
      69872, 69942, 70096, 70384, 70736, 70864, 71248, 71360, 71472, 71904,
      72016, 72784, 73040, 73120, 92768, 92864, 93008, 120782, 120792, 120802,
      120812, 120822, 123200, 123632, 125264, 130032]"

definition digit_value :: "pychar \<Rightarrow> nat option" where
  "digit_value c = map_option (\<lambda>z. c - z) (List.find (\<lambda>z. z \<le> c \<and> c < z + 10) decimal_zeros)"

definition is_digit :: "pychar \<Rightarrow> bool" where
  "is_digit c \<longleftrightarrow> digit_value c \<noteq> None"

text \<open>The digits of \<open>int(s)\<close>, read from the left; single underscores may separate
  digits.  \<open>prev\<close> says that the character before was a digit.\<close>

fun digits_val :: "pystr \<Rightarrow> nat \<Rightarrow> bool \<Rightarrow> nat option" where
  "digits_val [] acc prev = (if prev then Some acc else None)"
| "digits_val (c # cs) acc prev =
     (case digit_value c of
        Some d \<Rightarrow> digits_val cs (acc * 10 + d) True
      | None \<Rightarrow> if c = 95 \<and> prev then digits_val cs acc False else None)"

text \<open>
  \<open>int(s)\<close>; \<open>None\<close> is the \<open>ValueError\<close>.  The white space that \<open>int\<close> skips at both ends
  is that of \<open>str.strip\<close> without U+001C to U+001F.  After an optional sign come the
  digits; a string with more digits than \<open>sys.int_max_str_digits\<close> (4300 unless the
  interpreter is told otherwise) is refused.
\<close>

definition int_isspace :: "pychar \<Rightarrow> bool" where
  "int_isspace c \<longleftrightarrow> py_isspace c \<and> \<not> (28 \<le> c \<and> c \<le> 31)"

definition int_max_str_digits :: nat where
  "int_max_str_digits = 4300"

definition int_digits :: "pystr \<Rightarrow> nat option" where
  "int_digits ds =
     (if int_max_str_digits < length (filter is_digit ds) then None else digits_val ds 0 False)"

definition py_int :: "pystr \<Rightarrow> int option" where
  "py_int s =
     (case rev (dropWhile int_isspace (rev (dropWhile int_isspace s))) of
        [] \<Rightarrow> None
      | c # cs \<Rightarrow>
          if c = 45 then map_option (\<lambda>n. - int n) (int_digits cs)
          else if c = 43 then map_option int (int_digits cs)
          else map_option int (int_digits (c # cs)))"

text \<open>\<open>str(n)\<close> of an integer, as the f-string \<open>f"{count}"\<close> renders it.\<close>

function digits_of :: "nat \<Rightarrow> pystr" where
  "digits_of n = (if n < 10 then [48 + n] else digits_of (n div 10) @ [48 + n mod 10])"
  by pat_completeness auto
termination
  by (relation "measure id") auto

declare digits_of.simps [simp del]

definition py_str_int :: "int \<Rightarrow> pystr" where
  "py_str_int i = (if i < 0 then 45 # digits_of (nat (- i)) else digits_of (nat i))"

section \<open>The content tree\<close>

text \<open>
  An \<open>ElementTree\<close> element: its tag, its attribute dictionary, its text (absent or a
  string) and its children in document order.
\<close>

datatype element =
  Element (tag: pystr) (attrib: "(pystr \<times> pystr) list") (etext: "pystr option")
    (children: "element list")

definition W_NS :: pystr where
  "W_NS = u ''http://schemas.openxmlformats.org/wordprocessingml/2006/main''"

definition W :: pystr where
  "W = u ''{'' @ W_NS @ u ''}''"

definition qn :: "pystr \<Rightarrow> pystr" where
  "qn local = W @ local"

text \<open>\<open>node.get(key)\<close>, \<open>node.find("./t")\<close>, \<open>node.findall("./t")\<close> and
  \<open>node.findall(".//t")\<close> (every descendant, in document order).\<close>

definition get :: "element \<Rightarrow> pystr \<Rightarrow> pystr option" where
  "get node key = map_of (attrib node) key"

definition find_child :: "element \<Rightarrow> pystr \<Rightarrow> element option" where
  "find_child node t = List.find (\<lambda>c. tag c = t) (children node)"

definition findall_children :: "element \<Rightarrow> pystr \<Rightarrow> element list" where
  "findall_children node t = filter (\<lambda>c. tag c = t) (children node)"

fun descendants :: "element \<Rightarrow> element list" where
  "descendants (Element tg at tx ch) = concat (map (\<lambda>c. c # descendants c) ch)"

definition findall_descendants :: "element \<Rightarrow> pystr \<Rightarrow> element list" where
  "findall_descendants node t = filter (\<lambda>c. tag c = t) (descendants node)"

section \<open>Data model\<close>

text \<open>
  The dataclasses of the program.  Field names are the source's; where two classes have a
  field of the same name the later ones carry a prefix (\<open>range_comment_id\<close>,
  \<open>cc_comment_id\<close>, \<open>cc_author\<close>, \<open>cc_date\<close>), and \<open>Comment.text\<close> is \<open>ctext\<close>.
\<close>

datatype error = ValueError | RuntimeError

record Comment =
  comment_id :: pystr
  author :: "pystr option"
  date :: "pystr option"
  ctext :: pystr

record NumberingLevel =
  num_fmt :: pystr
  lvl_text :: pystr
  start :: int

record NumberingDefinition =
  levels :: "int \<rightharpoonup> NumberingLevel"

record NumberingInfo =
  abstract_nums :: "pystr \<rightharpoonup> NumberingDefinition"
  num_to_abstract :: "pystr \<rightharpoonup> pystr"

definition get_level :: "NumberingInfo \<Rightarrow> pystr \<Rightarrow> int \<Rightarrow> NumberingLevel option" where
  "get_level info nid lv =
     (case num_to_abstract info nid of
        None \<Rightarrow> None
      | Some abstract_id \<Rightarrow>
          if abstract_id = [] then None
          else (case abstract_nums info abstract_id of
                  None \<Rightarrow> None
                | Some abstract \<Rightarrow> levels abstract lv))"

record StyleInfo =
  heading_levels :: "pystr \<rightharpoonup> int"

record CommentRange =
  range_comment_id :: pystr
  text_parts :: "pystr list"

record CollectedComment =
  cc_comment_id :: pystr
  cc_author :: "pystr option"
  cc_date :: "pystr option"
  original_text :: pystr
  comment_text :: pystr

record RenderState =
  comments :: "pystr \<rightharpoonup> Comment"
  numbering :: NumberingInfo
  styles :: StyleInfo
  active_comment_ranges :: "pystr \<rightharpoonup> CommentRange"
  collected_comments :: "CollectedComment list"
  emitted_comment_ids :: "pystr set"
  list_counters :: "(pystr \<times> int) \<rightharpoonup> int"

text \<open>\<open>RenderState(comments=..., numbering=..., styles=...)\<close>: the other fields start empty.\<close>

definition new_RenderState :: "(pystr \<rightharpoonup> Comment) \<Rightarrow> NumberingInfo \<Rightarrow> StyleInfo \<Rightarrow> RenderState" where
  "new_RenderState cs nu sty =
     \<lparr>comments = cs, numbering = nu, styles = sty, active_comment_ranges = Map.empty,
      collected_comments = [], emitted_comment_ids = {}, list_counters = Map.empty\<rparr>"

subsection \<open>The methods of \<open>RenderState\<close>\<close>

definition start_comment_range :: "RenderState \<Rightarrow> pystr \<Rightarrow> RenderState" where
  "start_comment_range st cid =
     (if active_comment_ranges st cid = None
      then st\<lparr>active_comment_ranges :=
                (active_comment_ranges st)(cid \<mapsto> \<lparr>range_comment_id = cid, text_parts = []\<rparr>)\<rparr>
      else st)"

definition append_to_active_ranges :: "RenderState \<Rightarrow> pystr \<Rightarrow> RenderState" where
  "append_to_active_ranges st txt =
     st\<lparr>active_comment_ranges :=
          (\<lambda>k. map_option (\<lambda>cr. cr\<lparr>text_parts := text_parts cr @ [txt]\<rparr>)
                  (active_comment_ranges st k))\<rparr>"

definition end_comment_range :: "RenderState \<Rightarrow> pystr \<Rightarrow> RenderState" where
  "end_comment_range st cid =
     (case active_comment_ranges st cid of
        None \<Rightarrow> st
      | Some cr \<Rightarrow>
          let st1 = st\<lparr>active_comment_ranges := (active_comment_ranges st)(cid := None)\<rparr>;
              original = py_strip (concat (text_parts cr));
              original = py_join (u '' '') (py_split original)
          in (case comments st1 cid of
                None \<Rightarrow> st1
              | Some comment \<Rightarrow>
                  if cid \<notin> emitted_comment_ids st1
                  then st1\<lparr>collected_comments := collected_comments st1 @
                              [\<lparr>cc_comment_id = cid, cc_author = author comment,
                                cc_date = date comment, original_text = original,
                                comment_text = ctext comment\<rparr>],
                           emitted_comment_ids := insert cid (emitted_comment_ids st1)\<rparr>
                  else st1))"

definition handle_comment_reference :: "RenderState \<Rightarrow> pystr \<Rightarrow> RenderState" where
  "handle_comment_reference st cid =
     (if cid \<in> emitted_comment_ids st then st
      else if active_comment_ranges st cid \<noteq> None then st
      else (case comments st cid of
              None \<Rightarrow> st
            | Some comment \<Rightarrow>
                st\<lparr>collected_comments := collected_comments st @
                     [\<lparr>cc_comment_id = cid, cc_author = author comment,
                       cc_date = date comment, original_text = [],
                       comment_text = ctext comment\<rparr>],
                   emitted_comment_ids := insert cid (emitted_comment_ids st)\<rparr>))"

definition pop_collected_comments :: "RenderState \<Rightarrow> CollectedComment list \<times> RenderState" where
  "pop_collected_comments st = (collected_comments st, st\<lparr>collected_comments := []\<rparr>)"

definition ordered_formats :: "pystr list" where
  "ordered_formats =
     [u ''decimal'', u ''upperLetter'', u ''lowerLetter'', u ''upperRoman'', u ''lowerRoman'']"

definition get_list_marker :: "RenderState \<Rightarrow> pystr \<Rightarrow> int \<Rightarrow> pystr \<times> RenderState" where
  "get_list_marker st nid lv =
     (case get_level (numbering st) nid lv of
        None \<Rightarrow> (u ''- '', st)
      | Some level \<Rightarrow>
          let indent = py_repeat (u ''  '') lv
          in if num_fmt level = u ''bullet'' then (indent @ u ''- '', st)
             else if num_fmt level \<in> set ordered_formats
             then let key = (nid, lv);
                      count = (case list_counters st key of None \<Rightarrow> start level | Some c \<Rightarrow> c)
                  in (indent @ py_str_int count @ u ''. '',
                      st\<lparr>list_counters := (list_counters st)(key \<mapsto> count + 1)\<rparr>)
             else (indent @ u ''- '', st))"

definition reset_list_counter :: "RenderState \<Rightarrow> pystr \<Rightarrow> int \<Rightarrow> RenderState" where
  "reset_list_counter st nid lv =
     (case get_level (numbering st) nid lv of
        None \<Rightarrow> st
      | Some level \<Rightarrow> st\<lparr>list_counters := (list_counters st)((nid, lv) \<mapsto> start level)\<rparr>)"

definition get_heading_level :: "RenderState \<Rightarrow> pystr option \<Rightarrow> int option" where
  "get_heading_level st sid =
     (case sid of
        None \<Rightarrow> None
      | Some s \<Rightarrow> if s = [] then None else heading_levels (styles st) s)"

section \<open>The output buffer\<close>

record RunContext =
  highlight :: bool
  bold :: bool
  italic :: bool

definition new_RunContext :: RunContext where
  "new_RunContext = \<lparr>highlight = False, bold = False, italic = False\<rparr>"

record RenderOut =
  parts :: "pystr list"
  highlight_open :: bool
  bold_open :: bool
  italic_open :: bool

definition new_RenderOut :: RenderOut where
  "new_RenderOut = \<lparr>parts = [], highlight_open = False, bold_open = False, italic_open = False\<rparr>"

definition close_all_formats :: "RenderOut \<Rightarrow> RenderOut" where
  "close_all_formats out =
     (let out1 = (if italic_open out
                  then out\<lparr>parts := parts out @ [u ''*''], italic_open := False\<rparr> else out);
          out2 = (if bold_open out1
                  then out1\<lparr>parts := parts out1 @ [u ''**''], bold_open := False\<rparr> else out1)
      in if highlight_open out2
         then out2\<lparr>parts := parts out2 @ [u ''==''], highlight_open := False\<rparr> else out2)"

definition append_text :: "RenderOut \<Rightarrow> pystr \<Rightarrow> RunContext \<Rightarrow> RenderState \<Rightarrow> RenderOut \<times> RenderState" where
  "append_text out txt ctx st =
     (if txt = [] then (out, st)
      else
        let st1 = append_to_active_ranges st txt;
            out1 = (if highlight ctx \<and> \<not> highlight_open out
                    then out\<lparr>parts := parts out @ [u ''==''], highlight_open := True\<rparr>
                    else if \<not> highlight ctx \<and> highlight_open out
                    then out\<lparr>parts := parts out @ [u ''==''], highlight_open := False\<rparr>
                    else out);
            out2 = (if bold ctx \<and> \<not> bold_open out1
                    then out1\<lparr>parts := parts out1 @ [u ''**''], bold_open := True\<rparr>
                    else if \<not> bold ctx \<and> bold_open out1
                    then out1\<lparr>parts := parts out1 @ [u ''**''], bold_open := False\<rparr>
                    else out1);
            out3 = (if italic ctx \<and> \<not> italic_open out2
                    then out2\<lparr>parts := parts out2 @ [u ''*''], italic_open := True\<rparr>
                    else if \<not> italic ctx \<and> italic_open out2
                    then out2\<lparr>parts := parts out2 @ [u ''*''], italic_open := False\<rparr>
                    else out2)
        in (out3\<lparr>parts := parts out3 @ [txt]\<rparr>, st1))"

text \<open>\<open>append_literal(literal, state)\<close>: every call of the program passes the state.\<close>

definition append_literal :: "RenderOut \<Rightarrow> pystr \<Rightarrow> RenderState \<Rightarrow> RenderOut \<times> RenderState" where
  "append_literal out literal st =
     (let out1 = close_all_formats out
      in if literal \<noteq> []
         then (out1\<lparr>parts := parts out1 @ [literal]\<rparr>, append_to_active_ranges st literal)
         else (out1, st))"

text \<open>\<open>finish()\<close> returns the text; the buffer it leaves is \<open>close_all_formats out\<close>.\<close>

definition finish :: "RenderOut \<Rightarrow> pystr" where
  "finish out = concat (parts (close_all_formats out))"

section \<open>Run and paragraph properties\<close>

definition get_run_context :: "element \<Rightarrow> RunContext" where
  "get_run_context run =
     (case find_child run (qn (u ''rPr'')) of
        None \<Rightarrow> new_RunContext
      | Some rpr \<Rightarrow>
          let hl = (case find_child rpr (qn (u ''highlight'')) of
                      None \<Rightarrow> False
                    | Some h \<Rightarrow>
                        let val = py_lower (py_strip
                                    (case get h (qn (u ''val'')) of None \<Rightarrow> [] | Some v \<Rightarrow> v))
                        in val \<notin> set [[], u ''none'']);
              b = (case find_child rpr (qn (u ''b'')) of
                     None \<Rightarrow> False
                   | Some e \<Rightarrow>
                       (case get e (qn (u ''val'')) of
                          None \<Rightarrow> True
                        | Some val \<Rightarrow> py_lower val \<notin> set [u ''false'', u ''0'']));
              i = (case find_child rpr (qn (u ''i'')) of
                     None \<Rightarrow> False
                   | Some e \<Rightarrow>
                       (case get e (qn (u ''val'')) of
                          None \<Rightarrow> True
                        | Some val \<Rightarrow> py_lower val \<notin> set [u ''false'', u ''0'']))
          in \<lparr>highlight = hl, bold = b, italic = i\<rparr>)"

record ParagraphProps =
  style_id :: "pystr option"
  num_id :: "pystr option"
  ilvl :: int

definition new_ParagraphProps :: ParagraphProps where
  "new_ParagraphProps = \<lparr>style_id = None, num_id = None, ilvl = 0\<rparr>"

text \<open>\<open>int(...)\<close> on the \<open>ilvl\<close> value may raise \<open>ValueError\<close>.\<close>

definition get_paragraph_props :: "element \<Rightarrow> error + ParagraphProps" where
  "get_paragraph_props p =
     (case find_child p (qn (u ''pPr'')) of
        None \<Rightarrow> Inr new_ParagraphProps
      | Some ppr \<Rightarrow>
          let props1 = (case find_child ppr (qn (u ''pStyle'')) of
                          None \<Rightarrow> new_ParagraphProps
                        | Some pstyle \<Rightarrow> new_ParagraphProps\<lparr>style_id := get pstyle (qn (u ''val''))\<rparr>)
          in (case find_child ppr (qn (u ''numPr'')) of
                None \<Rightarrow> Inr props1
              | Some numpr \<Rightarrow>
                  (case (case find_child numpr (qn (u ''ilvl'')) of
                           None \<Rightarrow> Inr props1
                         | Some ilvl_el \<Rightarrow>
                             (case py_int (case get ilvl_el (qn (u ''val'')) of
                                             None \<Rightarrow> u ''0''
                                           | Some v \<Rightarrow> if v = [] then u ''0'' else v) of
                                None \<Rightarrow> Inl ValueError
                              | Some n \<Rightarrow> Inr (props1\<lparr>ilvl := n\<rparr>))) of
                     Inl e \<Rightarrow> Inl e
                   | Inr props2 \<Rightarrow>
                       Inr (case find_child numpr (qn (u ''numId'')) of
                              None \<Rightarrow> props2
                            | Some numid_el \<Rightarrow> props2\<lparr>num_id := get numid_el (qn (u ''val''))\<rparr>))))"

section \<open>The renderer\<close>

subsection \<open>The output loop of the table flattener\<close>

text \<open>\<open>while len(row) < max_cols: row.append("")\<close>\<close>

definition pad_row :: "nat \<Rightarrow> pystr list \<Rightarrow> pystr list" where
  "pad_row max_cols row = row @ replicate (max_cols - length row) []"

text \<open>The loop \<open>for i, row in enumerate(rows)\<close> of \<open>_render_table\<close>.\<close>

fun emit_rows :: "nat \<Rightarrow> (nat \<times> pystr list) list \<Rightarrow> RenderOut \<Rightarrow> RenderState \<Rightarrow> RenderOut \<times> RenderState" where
  "emit_rows max_cols [] out st = (out, st)"
| "emit_rows max_cols ((i, row) # rest) out st =
     (let row1 = pad_row max_cols row;
          line = u ''| '' @ py_join (u '' | '') row1 @ u '' |'';
          (out1, st1) = append_literal out (line @ [10]) st;
          (out2, st2) =
             (if i = 0
              then let sep = u ''| '' @ py_join (u '' | '') (replicate max_cols (u ''---'')) @ u '' |''
                   in append_literal out1 (sep @ [10]) st1
              else (out1, st1))
      in emit_rows max_cols rest out2 st2)"

text \<open>\<open>max(len(r) for r in rows) if rows else 0\<close>\<close>

definition max_len :: "pystr list list \<Rightarrow> nat" where
  "max_len rows = fold max (map length rows) 0"

subsection \<open>Sizes of children and descendants\<close>

lemma size_children: "c \<in> set (children n) \<Longrightarrow> size c < size n"
  by (cases n) (auto simp: less_Suc_eq_le size_list_estimation')

lemma size_descendants: "d \<in> set (descendants n) \<Longrightarrow> size d < size n"
proof (induction n arbitrary: d)
  case (Element tg at tx ch)
  from Element.prems obtain c where c: "c \<in> set ch" and d: "d = c \<or> d \<in> set (descendants c)"
    by auto
  have "size c < size (Element tg at tx ch)"
    using c size_children [of c "Element tg at tx ch"] by simp
  moreover have "size d \<le> size c"
    using d Element.IH [OF c] by (auto simp: less_imp_le)
  ultimately show ?case by simp
qed

lemma size_list_child: "c \<in> set ch \<Longrightarrow> 3 * size c < 3 + 3 * size_list size ch"
  using size_list_estimation' [of c ch "size c" size] by simp

lemma size_table_paragraph:
  assumes "tr \<in> set (findall_children tbl a)" and "tc \<in> set (findall_children tr b)"
    and "p \<in> set (findall_descendants tc c)"
  shows "3 * size p + 2 < 3 * size tbl"
proof -
  have "tr \<in> set (children tbl)" "tc \<in> set (children tr)" "p \<in> set (descendants tc)"
    using assms by (simp_all add: findall_children_def findall_descendants_def)
  then have "size tr < size tbl" "size tc < size tr" "size p < size tc"
    by (simp_all add: size_children size_descendants)
  then show ?thesis by simp
qed

subsection \<open>\<open>_render_node\<close>, \<open>_render_paragraph_content\<close> and \<open>_render_table\<close>\<close>

text \<open>
  The three functions call each other.  A loop \<open>for child in list(node)\<close> is a \<open>fold\<close>
  over the children that threads the buffer and the traversal state; \<open>continue\<close> is the
  branch that returns both unchanged.
\<close>

function render_node :: "element \<Rightarrow> RunContext \<Rightarrow> RenderOut \<Rightarrow> RenderState \<Rightarrow> RenderOut \<times> RenderState"
  and render_paragraph_content :: "element \<Rightarrow> RenderState \<Rightarrow> pystr \<times> RenderState"
  and render_table :: "element \<Rightarrow> RunContext \<Rightarrow> RenderOut \<Rightarrow> RenderState \<Rightarrow> RenderOut \<times> RenderState"
where
  "render_node (Element tg at tx ch) ctx out st =
     (let node = Element tg at tx ch in
      if tg = qn (u ''commentRangeStart'') then
        (case get node (qn (u ''id'')) of
           None \<Rightarrow> (out, st)
         | Some cid \<Rightarrow> if cid \<noteq> [] then (out, start_comment_range st cid) else (out, st))
      else if tg = qn (u ''commentRangeEnd'') then
        (case get node (qn (u ''id'')) of
           None \<Rightarrow> (out, st)
         | Some cid \<Rightarrow> if cid \<noteq> [] then (out, end_comment_range st cid) else (out, st))
      else if tg = qn (u ''ins'') then
        (let (inner, st1) = fold (\<lambda>child (inner, s). render_node child ctx inner s) ch (new_RenderOut, st);
             txt = finish inner
         in if txt \<noteq> [] then append_literal out (u ''{+'' @ txt @ u ''+}'') st1 else (out, st1))
      else if tg = qn (u ''del'') then
        (let (inner, st1) = fold (\<lambda>child (inner, s). render_node child ctx inner s) ch (new_RenderOut, st);
             txt = finish inner
         in if txt \<noteq> [] then append_literal out (u ''[-'' @ txt @ u ''-]'') st1 else (out, st1))
      else if tg = qn (u ''r'') then
        (let run_ctx = get_run_context node;
             merged_ctx = \<lparr>highlight = highlight ctx \<or> highlight run_ctx,
                           bold = bold ctx \<or> bold run_ctx,
                           italic = italic ctx \<or> italic run_ctx\<rparr>
         in fold (\<lambda>child (out, s).
              let ctag = tag child in
              if ctag = qn (u ''rPr'') then (out, s)
              else if ctag = qn (u ''commentReference'') then
                (case get child (qn (u ''id'')) of
                   None \<Rightarrow> (out, s)
                 | Some cid \<Rightarrow> if cid \<noteq> [] then (out, handle_comment_reference s cid) else (out, s))
              else if ctag \<in> set [qn (u ''t''), qn (u ''delText'')] then
                append_text out (case etext child of None \<Rightarrow> [] | Some t \<Rightarrow> t) merged_ctx s
              else if ctag = qn (u ''tab'') then append_literal out [9] s
              else if ctag \<in> set [qn (u ''br''), qn (u ''cr'')] then append_literal out [10] s
              else if ctag = qn (u ''noBreakHyphen'') then append_text out [8209] merged_ctx s
              else if ctag = qn (u ''softHyphen'') then append_text out [173] merged_ctx s
              else render_node child merged_ctx out s) ch (out, st))
      else if tg = qn (u ''p'') then
        fold (\<lambda>child (out, s).
          if tag child = qn (u ''pPr'') then (out, s) else render_node child ctx out s) ch (out, st)
      else if tg = qn (u ''tbl'') then render_table node ctx out st
      else fold (\<lambda>child (out, s). render_node child ctx out s) ch (out, st))"
| "render_paragraph_content p st =
     (let (out, st1) = render_node p new_RunContext new_RenderOut st
      in (py_rstrip (finish out), st1))"
| "render_table tbl ctx out st =
     (let (rows, st1) =
            fold (\<lambda>tr (rows, s).
              let (row_cells, s1) =
                    fold (\<lambda>tc (row_cells, s).
                      let (cell_parts, s1) =
                            fold (\<lambda>p (cell_parts, s).
                              let (content, s1) = render_paragraph_content p s
                              in (if content \<noteq> [] then cell_parts @ [content] else cell_parts, s1))
                              (findall_descendants tc (qn (u ''p''))) ([], s)
                      in (row_cells @ [py_strip (py_join (u '' '') cell_parts)], s1))
                      (findall_children tr (qn (u ''tc''))) ([], s)
              in (rows @ [row_cells], s1))
              (findall_children tbl (qn (u ''tr''))) ([], st)
      in if rows = [] then (out, st1)
         else let max_cols = max_len rows
              in if max_cols = 0 then (out, st1)
                 else emit_rows max_cols (enumerate 0 rows) out st1)"
  by pat_completeness auto
termination
proof (relation "measure (\<lambda>x. case x of
          Inl (n, _) \<Rightarrow> 3 * size n + 1
        | Inr (Inl (p, _)) \<Rightarrow> 3 * size p + 2
        | Inr (Inr (t, _)) \<Rightarrow> 3 * size t)", goal_cases)
  case 1
  show ?case by simp
next
  case 9
  then show ?case using size_table_paragraph by fastforce
qed (auto simp: size_list_child)

declare render_node.simps [simp del] render_paragraph_content.simps [simp del]
  render_table.simps [simp del]

section \<open>Paragraphs and the document\<close>

text \<open>The labels of an annotation block are the program's literals, by code point:
  U+6279 U+6CE8 (the word for a comment), U+539F U+6587 (the word for the original text)
  and U+FF1A (the full-width colon).\<close>

definition format_comment_block :: "CollectedComment \<Rightarrow> pystr" where
  "format_comment_block c =
     (let meta_parts =
            [u ''**['' @ [25209, 27880] @ u '' #'' @ cc_comment_id c @ u '']**'']
            @ (case cc_author c of None \<Rightarrow> [] | Some a \<Rightarrow> if a \<noteq> [] then [a] else [])
            @ (case cc_date c of None \<Rightarrow> [] | Some d \<Rightarrow> if d \<noteq> [] then [u ''('' @ d @ u '')''] else []);
          lines =
            [u ''> '' @ py_join (u '' '') meta_parts]
            @ (if original_text c \<noteq> []
               then [u ''> **'' @ [21407, 25991] @ u ''**'' @ [65306] @ original_text c] else [])
            @ (if comment_text c \<noteq> []
               then [u ''> **'' @ [25209, 27880] @ u ''**'' @ [65306] @ comment_text c] else [])
      in py_join [10] lines)"

text \<open>The lines \<open>""\<close> and the block, for each comment in order.\<close>

definition comment_lines :: "CollectedComment list \<Rightarrow> pystr list" where
  "comment_lines cs = concat (map (\<lambda>c. [[], format_comment_block c]) cs)"

definition render_paragraph :: "element \<Rightarrow> RenderState \<Rightarrow> error + (pystr list \<times> RenderState)" where
  "render_paragraph p st =
     (case get_paragraph_props p of
        Inl e \<Rightarrow> Inl e
      | Inr props \<Rightarrow>
          let (content, st1) = render_paragraph_content p st;
              (cs, st2) = pop_collected_comments st1
          in if content = [] \<and> cs = [] then Inr ([], st2)
             else
               let heading_level = get_heading_level st2 (style_id props);
                   (lines, st3) =
                     (if heading_level \<noteq> None \<and> heading_level \<noteq> Some 0 \<and> content \<noteq> []
                      then ([py_repeat (u ''#'') (case heading_level of Some h \<Rightarrow> h | None \<Rightarrow> 0)
                               @ u '' '' @ content], st2)
                      else if num_id props \<noteq> None \<and> num_id props \<noteq> Some [] \<and> content \<noteq> []
                      then (let (marker, st') =
                                  get_list_marker st2 (case num_id props of Some n \<Rightarrow> n | None \<Rightarrow> [])
                                    (ilvl props)
                            in ([marker @ content], st'))
                      else if content \<noteq> [] then ([content], st2)
                      else ([], st2))
               in Inr (lines @ comment_lines cs, st3))"

text \<open>The loop of \<open>linearize_docx\<close> over the children of the body.\<close>

fun body_loop :: "element list \<Rightarrow> pystr list \<Rightarrow> RenderState \<Rightarrow> error + (pystr list \<times> RenderState)" where
  "body_loop [] output_lines st = Inr (output_lines, st)"
| "body_loop (child # rest) output_lines st =
     (if tag child = qn (u ''p'') then
        (case render_paragraph child st of
           Inl e \<Rightarrow> Inl e
         | Inr (para_lines, st1) \<Rightarrow> body_loop rest (output_lines @ para_lines) st1)
      else if tag child = qn (u ''tbl'') then
        (let (out, st1) = render_table child new_RunContext new_RenderOut st;
             chunk = py_rstrip (finish out)
         in body_loop rest (if chunk \<noteq> [] then output_lines @ [chunk] else output_lines) st1)
      else body_loop rest output_lines st)"

text \<open>
  \<open>linearize_docx\<close> from the parsed parts of the container: the root of the main part
  (absent when the part is missing, which raises \<open>RuntimeError\<close>), the comment registry,
  the numbering table and the style table.
\<close>

definition linearize_docx :: "element option \<Rightarrow> (pystr \<rightharpoonup> Comment) \<Rightarrow> NumberingInfo \<Rightarrow> StyleInfo \<Rightarrow> error + pystr" where
  "linearize_docx document_root cs nu sty =
     (case document_root of
        None \<Rightarrow> Inl RuntimeError
      | Some root \<Rightarrow>
          let st = new_RenderState cs nu sty
          in (case List.find (\<lambda>c. tag c = qn (u ''body'')) (descendants root) of
                None \<Rightarrow> Inr []
              | Some body \<Rightarrow>
                  (case body_loop (children body) [] st of
                     Inl e \<Rightarrow> Inl e
                   | Inr (output_lines, st1) \<Rightarrow>
                       let (remaining, st2) = pop_collected_comments st1;
                           output_lines = output_lines @ comment_lines remaining;
                           txt = py_rstrip (py_join [10] output_lines)
                       in Inr (if txt \<noteq> [] then txt @ [10] else []))))"

section \<open>The style resolver\<close>

text \<open>\<open>re.match(r"(?:heading|...)\s*(\d+)", name_lower)\<close>, the second alternative being
  U+6807 U+9898: the group of digits when the name matches.  \<open>\s\<close> is the white space of
  \<open>str.isspace\<close> and \<open>\d\<close> a decimal digit of any script.\<close>

definition match_heading :: "pystr \<Rightarrow> pystr option" where
  "match_heading name_lower =
     (let rest = (if take 7 name_lower = u ''heading'' then Some (drop 7 name_lower)
                  else if take 2 name_lower = [26631, 39064] then Some (drop 2 name_lower)
                  else None)
      in case rest of
           None \<Rightarrow> None
         | Some r \<Rightarrow>
             let digits = takeWhile is_digit (dropWhile py_isspace r)
             in if digits = [] then None else Some digits)"

text \<open>The body of the loop of \<open>_parse_styles\<close> for one style definition.\<close>

definition parse_style :: "StyleInfo \<Rightarrow> element \<Rightarrow> error + StyleInfo" where
  "parse_style info style =
     (case get style (qn (u ''styleId'')) of
        None \<Rightarrow> Inr info
      | Some sid \<Rightarrow>
          if sid = [] then Inr info
          else
            (case (case find_child style (qn (u ''pPr'')) of
                     None \<Rightarrow> Inr info
                   | Some ppr \<Rightarrow>
                       (case find_child ppr (qn (u ''outlineLvl'')) of
                          None \<Rightarrow> Inr info
                        | Some outline \<Rightarrow>
                            (case get outline (qn (u ''val'')) of
                               None \<Rightarrow> Inr info
                             | Some val \<Rightarrow>
                                 (case py_int val of
                                    None \<Rightarrow> Inl ValueError
                                  | Some lvl \<Rightarrow>
                                      if 0 \<le> lvl \<and> lvl \<le> 5
                                      then Inr (info\<lparr>heading_levels :=
                                                  (heading_levels info)(sid \<mapsto> lvl + 1)\<rparr>)
                                      else Inr info)))) of
               Inl e \<Rightarrow> Inl e
             | Inr info1 \<Rightarrow>
                 (case find_child style (qn (u ''name'')) of
                    None \<Rightarrow> Inr info1
                  | Some name_el \<Rightarrow>
                      let name = (case get name_el (qn (u ''val'')) of None \<Rightarrow> [] | Some v \<Rightarrow> v);
                          name_lower = py_lower name
                      in (case match_heading name_lower of
                            None \<Rightarrow> Inr info1
                          | Some digits \<Rightarrow>
                              (case py_int digits of
                                 None \<Rightarrow> Inl ValueError
                               | Some lvl \<Rightarrow>
                                   if 1 \<le> lvl \<and> lvl \<le> 6
                                   then Inr (info1\<lparr>heading_levels :=
                                               (heading_levels info1)(sid \<mapsto> lvl)\<rparr>)
                                   else Inr info1)))))"

fun parse_styles_loop :: "element list \<Rightarrow> StyleInfo \<Rightarrow> error + StyleInfo" where
  "parse_styles_loop [] info = Inr info"
| "parse_styles_loop (style # rest) info =
     (case parse_style info style of
        Inl e \<Rightarrow> Inl e
      | Inr info1 \<Rightarrow> parse_styles_loop rest info1)"

definition parse_styles :: "element option \<Rightarrow> error + StyleInfo" where
  "parse_styles styles_root =
     (let info = \<lparr>heading_levels = Map.empty\<rparr>
      in case styles_root of
           None \<Rightarrow> Inr info
         | Some root \<Rightarrow> parse_styles_loop (findall_descendants root (qn (u ''style''))) info)"

section \<open>Vocabulary of the properties\<close>

subsection \<open>The loops of the renderer, by name\<close>

text \<open>The children of an insertion or a deletion rendered into a fresh buffer, as the
  branches for \<open>ins\<close> and \<open>del\<close> of \<open>_render_node\<close> do.\<close>

definition render_isolated :: "element list \<Rightarrow> RunContext \<Rightarrow> RenderState \<Rightarrow> RenderOut \<times> RenderState" where
  "render_isolated ch ctx st =
     fold (\<lambda>child (inner, s). render_node child ctx inner s) ch (new_RenderOut, st)"

text \<open>The rows that \<open>_render_table\<close> collects before it writes anything.\<close>

definition collect_rows :: "element \<Rightarrow> RenderState \<Rightarrow> pystr list list \<times> RenderState" where
  "collect_rows tbl st =
     fold (\<lambda>tr (rows, s).
       let (row_cells, s1) =
             fold (\<lambda>tc (row_cells, s).
               let (cell_parts, s1) =
                     fold (\<lambda>p (cell_parts, s).
                       let (content, s1) = render_paragraph_content p s
                       in (if content \<noteq> [] then cell_parts @ [content] else cell_parts, s1))
                       (findall_descendants tc (qn (u ''p''))) ([], s)
               in (row_cells @ [py_strip (py_join (u '' '') cell_parts)], s1))
               (findall_children tr (qn (u ''tc''))) ([], s)
       in (rows @ [row_cells], s1))
       (findall_children tbl (qn (u ''tr''))) ([], st)"

subsection \<open>Sequences of calls on the traversal state\<close>

text \<open>
  The calls that the traversal makes on a \<open>RenderState\<close>, and what each returns.  A
  traversal is some sequence of these calls; \<open>reset_list_counter\<close> is not among them,
  the program never calls it.
\<close>

datatype call =
    StartRange pystr
  | AppendToRanges pystr
  | EndRange pystr
  | CommentReference pystr
  | PopCollected
  | GetListMarker pystr int
  | GetHeadingLevel "pystr option"

datatype result =
    Done
  | Popped "CollectedComment list"
  | Marker pystr
  | Level "int option"

fun do_call :: "call \<Rightarrow> RenderState \<Rightarrow> result \<times> RenderState" where
  "do_call (StartRange cid) st = (Done, start_comment_range st cid)"
| "do_call (AppendToRanges txt) st = (Done, append_to_active_ranges st txt)"
| "do_call (EndRange cid) st = (Done, end_comment_range st cid)"
| "do_call (CommentReference cid) st = (Done, handle_comment_reference st cid)"
| "do_call PopCollected st = (let (cs, st1) = pop_collected_comments st in (Popped cs, st1))"
| "do_call (GetListMarker nid lv) st = (let (m, st1) = get_list_marker st nid lv in (Marker m, st1))"
| "do_call (GetHeadingLevel sid) st = (Level (get_heading_level st sid), st)"

fun run_calls :: "call list \<Rightarrow> RenderState \<Rightarrow> result list \<times> RenderState" where
  "run_calls [] st = ([], st)"
| "run_calls (c # cs) st =
     (let (r, st1) = do_call c st; (rs, st2) = run_calls cs st1 in (r # rs, st2))"

text \<open>Every comment that was enqueued: those handed out by a pop, in order, and those
  still in the queue at the end.\<close>

fun popped :: "result list \<Rightarrow> CollectedComment list" where
  "popped [] = []"
| "popped (Popped cs # rs) = cs @ popped rs"
| "popped (r # rs) = popped rs"

definition enqueued :: "result list \<times> RenderState \<Rightarrow> CollectedComment list" where
  "enqueued x = popped (fst x) @ collected_comments (snd x)"

subsection \<open>Sequences of calls on a buffer\<close>

datatype buffer_call = EmitText pystr RunContext | EmitLiteral pystr

fun run_buffer :: "buffer_call list \<Rightarrow> RenderOut \<Rightarrow> RenderState \<Rightarrow> RenderOut \<times> RenderState" where
  "run_buffer [] out st = (out, st)"
| "run_buffer (EmitText txt ctx # cs) out st =
     (let (out1, st1) = append_text out txt ctx st in run_buffer cs out1 st1)"
| "run_buffer (EmitLiteral lit # cs) out st =
     (let (out1, st1) = append_literal out lit st in run_buffer cs out1 st1)"

text \<open>
  What a buffer writes, told apart: a marker of one of the three kinds, or a piece of text.
  \<open>pieces\<close> follows section 4.1 of the specification: \<open>emitText\<close> flips, in the order
  highlight, bold, italic, each marker whose state differs from the wanted one and then
  writes the text; \<open>emitLiteral\<close> closes what is open in the order italic, bold, highlight
  and then writes the literal; at the end \<open>finish\<close> closes what is open in that same
  order.  The three flags say which markers are open.
\<close>

datatype marker = Highlight | Bold | Italic

datatype piece = Mark marker | Txt pystr

fun marker_str :: "marker \<Rightarrow> pystr" where
  "marker_str Highlight = u ''==''"
| "marker_str Bold = u ''**''"
| "marker_str Italic = u ''*''"

fun piece_str :: "piece \<Rightarrow> pystr" where
  "piece_str (Mark m) = marker_str m"
| "piece_str (Txt t) = t"

definition closing :: "bool \<Rightarrow> bool \<Rightarrow> bool \<Rightarrow> piece list" where
  "closing h b i =
     (if i then [Mark Italic] else []) @ (if b then [Mark Bold] else [])
     @ (if h then [Mark Highlight] else [])"

fun pieces :: "buffer_call list \<Rightarrow> bool \<Rightarrow> bool \<Rightarrow> bool \<Rightarrow> piece list" where
  "pieces [] h b i = closing h b i"
| "pieces (EmitText txt ctx # cs) h b i =
     (if txt = [] then pieces cs h b i
      else (if highlight ctx \<noteq> h then [Mark Highlight] else [])
           @ (if bold ctx \<noteq> b then [Mark Bold] else [])
           @ (if italic ctx \<noteq> i then [Mark Italic] else [])
           @ [Txt txt] @ pieces cs (highlight ctx) (bold ctx) (italic ctx))"
| "pieces (EmitLiteral lit # cs) h b i =
     closing h b i @ (if lit \<noteq> [] then [Txt lit] else []) @ pieces cs False False False"

subsection \<open>The flattened table of the specification\<close>

text \<open>
  Section 4.6 of the specification: every row is padded on the right with empty cells to
  the maximum cell count, a row is written as its cells between \<open>"| "\<close>, \<open>" | "\<close> and
  \<open>" |"\<close>, and a row of \<open>"---"\<close> cells of the same width follows the first row.
\<close>

definition table_line :: "pystr list \<Rightarrow> pystr" where
  "table_line cells = u ''| '' @ py_join (u '' | '') cells @ u '' |''"

definition spec_table_lines :: "pystr list list \<Rightarrow> pystr list" where
  "spec_table_lines rows =
     (let width = Max (set (map length rows));
          padded = map (\<lambda>row. row @ replicate (width - length row) []) rows
      in case padded of
           [] \<Rightarrow> []
         | first # rest \<Rightarrow>
             table_line first # table_line (replicate width (u ''---'')) # map table_line rest)"

subsection \<open>Example inputs\<close>

definition no_numbering :: NumberingInfo where
  "no_numbering = \<lparr>abstract_nums = Map.empty, num_to_abstract = Map.empty\<rparr>"

definition no_styles :: StyleInfo where
  "no_styles = \<lparr>heading_levels = Map.empty\<rparr>"

text \<open>A registry with the one comment of section 8 of the specification.\<close>

definition alice :: Comment where
  "alice = \<lparr>comment_id = u ''1'', author = Some (u ''Alice''), date = Some (u ''2024-01-02''),
            ctext = u ''fix this''\<rparr>"

definition registry1 :: "pystr \<rightharpoonup> Comment" where
  "registry1 = [u ''1'' \<mapsto> alice]"

text \<open>Elements without attributes or text, a text leaf and a run.\<close>

definition elem :: "string \<Rightarrow> element list \<Rightarrow> element" where
  "elem name ch = Element (qn (u name)) [] None ch"

definition elem_id :: "string \<Rightarrow> pystr \<Rightarrow> element" where
  "elem_id name cid = Element (qn (u name)) [(qn (u ''id''), cid)] None []"

definition elem_val :: "string \<Rightarrow> pystr \<Rightarrow> element" where
  "elem_val name v = Element (qn (u name)) [(qn (u ''val''), v)] None []"

definition text_leaf :: "pystr \<Rightarrow> element" where
  "text_leaf txt = Element (qn (u ''t'')) [] (Some txt) []"

definition commentA :: Comment where
  "commentA = \<lparr>comment_id = u ''A'', author = None, date = None, ctext = u ''first''\<rparr>"

definition commentB :: Comment where
  "commentB = \<lparr>comment_id = u ''B'', author = None, date = None, ctext = u ''second''\<rparr>"

definition registry2 :: "pystr \<rightharpoonup> Comment" where
  "registry2 = [u ''A'' \<mapsto> commentA, u ''B'' \<mapsto> commentB]"

text \<open>The numbering of section 8 of the specification: list \<open>5\<close> is decimal from 1 at
  depth 0 and a bullet list at depth 1.\<close>

definition decimal_level :: NumberingLevel where
  "decimal_level = \<lparr>num_fmt = u ''decimal'', lvl_text = u ''%1.'', start = 1\<rparr>"

definition bullet_level :: NumberingLevel where
  "bullet_level = \<lparr>num_fmt = u ''bullet'', lvl_text = [8226], start = 1\<rparr>"

definition numbering1 :: NumberingInfo where
  "numbering1 =
     \<lparr>abstract_nums = [u ''0'' \<mapsto> \<lparr>levels = [0 \<mapsto> decimal_level, 1 \<mapsto> bullet_level]\<rparr>],
      num_to_abstract = [u ''5'' \<mapsto> u ''0'']\<rparr>"

text \<open>The style of section 8 of the specification: outline level 1 and the display name
  \<open>Heading 1\<close>; and the same style without the name.\<close>

definition heading_style :: element where
  "heading_style =
     Element (qn (u ''style'')) [(qn (u ''styleId''), u ''Title2'')] None
       [elem ''pPr'' [elem_val ''outlineLvl'' (u ''1'')],
        elem_val ''name'' (u ''Heading 1'')]"

definition outline_style :: element where
  "outline_style =
     Element (qn (u ''style'')) [(qn (u ''styleId''), u ''Title2'')] None
       [elem ''pPr'' [elem_val ''outlineLvl'' (u ''1'')]]"

text \<open>The same style with the display name \<open>Heading 1\<close> followed by U+0663, the
  Arabic-Indic digit three.\<close>

definition heading13_style :: element where
  "heading13_style =
     Element (qn (u ''style'')) [(qn (u ''styleId''), u ''Title2'')] None
       [elem ''pPr'' [elem_val ''outlineLvl'' (u ''1'')],
        elem_val ''name'' (u ''Heading 1'' @ [1635])]"

text \<open>A table with a row of two cells and a row of three, each cell one paragraph with
  one run of text.\<close>

definition cell :: "string \<Rightarrow> element" where
  "cell s = elem ''tc'' [elem ''p'' [elem ''r'' [text_leaf (u s)]]]"

definition table23 :: element where
  "table23 = elem ''tbl'' [elem ''tr'' [cell ''a'', cell ''b''],
                           elem ''tr'' [cell ''c'', cell ''d'', cell ''e'']]"

subsection \<open>Tracked revisions with unformatted content\<close>

text \<open>
  Content is unformatted for a range when rendering it writes no format marker and does
  nothing to the range but hand it text: it has no run whose properties set highlight,
  bold or italic, no insertion or deletion, no table and no end of that range.  The
  predicate follows the branches of \<open>_render_node\<close>: the children that a run handles
  itself are not descended into, and neither are the properties of a paragraph.
  \<open>revision\<close> pairs the two kinds of revision node with their brackets.
\<close>

definition leaf_text :: "element \<Rightarrow> pystr" where
  "leaf_text c = (case etext c of None \<Rightarrow> [] | Some t \<Rightarrow> t)"

definition run_leaf_tags :: "pystr list" where
  "run_leaf_tags =
     [qn (u ''rPr''), qn (u ''commentReference''), qn (u ''t''), qn (u ''delText''),
      qn (u ''tab''), qn (u ''br''), qn (u ''cr''), qn (u ''noBreakHyphen''),
      qn (u ''softHyphen'')]"

fun unformatted :: "pystr \<Rightarrow> element \<Rightarrow> bool" where
  "unformatted cid (Element tg at tx ch) =
     (if tg = qn (u ''commentRangeStart'') then True
      else if tg = qn (u ''commentRangeEnd'')
      then get (Element tg at tx ch) (qn (u ''id'')) \<noteq> Some cid
      else if tg \<in> set [qn (u ''ins''), qn (u ''del''), qn (u ''tbl'')] then False
      else if tg = qn (u ''r'')
      then get_run_context (Element tg at tx ch) = new_RunContext
           \<and> list_all (\<lambda>c. tag c \<in> set run_leaf_tags \<or> unformatted cid c) ch
      else if tg = qn (u ''p'')
      then list_all (\<lambda>c. tag c = qn (u ''pPr'') \<or> unformatted cid c) ch
      else list_all (unformatted cid) ch)"

definition revision :: "element \<Rightarrow> pystr \<Rightarrow> pystr \<Rightarrow> bool" where
  "revision node l r \<longleftrightarrow>
     (tag node = qn (u ''ins'') \<and> l = u ''{+'' \<and> r = u ''+}'')
     \<or> (tag node = qn (u ''del'') \<and> l = u ''[-'' \<and> r = u ''-]'')"

text \<open>An insertion whose run is bold, an insertion whose run holds a tab between two
  texts, and a state in which the range of comment \<open>A\<close> is active.\<close>

definition bold_ins :: element where
  "bold_ins = elem ''ins'' [elem ''r'' [elem ''rPr'' [elem ''b'' []], text_leaf (u ''x'')]]"

definition tab_ins :: element where
  "tab_ins = elem ''ins'' [elem ''r'' [text_leaf (u ''a''), elem ''tab'' [], text_leaf (u ''b'')]]"

definition state_A :: RenderState where
  "state_A = start_comment_range (new_RenderState registry2 no_numbering no_styles) (u ''A'')"

definition all_closed :: "RenderOut \<Rightarrow> bool" where
  "all_closed out \<longleftrightarrow> \<not> highlight_open out \<and> \<not> bold_open out \<and> \<not> italic_open out"

subsection \<open>Example documents\<close>

text \<open>A paragraph that opens the range of comment 1 around \<open>hello\<close> and never closes
  it, the same paragraph with the range closed, and the states after each.\<close>

definition open_paragraph :: element where
  "open_paragraph =
     elem ''p'' [elem_id ''commentRangeStart'' (u ''1''),
                 elem ''r'' [text_leaf (u ''hello'')],
                 elem ''r'' [elem_id ''commentReference'' (u ''1'')]]"

definition closed_paragraph :: element where
  "closed_paragraph =
     elem ''p'' [elem_id ''commentRangeStart'' (u ''1''),
                 elem ''r'' [text_leaf (u ''hello'')],
                 elem_id ''commentRangeEnd'' (u ''1''),
                 elem ''r'' [elem_id ''commentReference'' (u ''1'')]]"

definition document :: "element \<Rightarrow> element" where
  "document p = elem ''document'' [elem ''body'' [p]]"

definition state0 :: RenderState where
  "state0 = new_RenderState registry1 no_numbering no_styles"

definition state_open :: RenderState where
  "state_open =
     handle_comment_reference
       (snd (append_text new_RenderOut (u ''hello'') new_RunContext
               (start_comment_range state0 (u ''1'')))) (u ''1'')"

definition state_closed :: RenderState where
  "state_closed =
     handle_comment_reference
       (end_comment_range
         (snd (append_text new_RenderOut (u ''hello'') new_RunContext
                 (start_comment_range state0 (u ''1'')))) (u ''1'')) (u ''1'')"

definition alice_hello :: CollectedComment where
  "alice_hello =
     \<lparr>cc_comment_id = u ''1'', cc_author = Some (u ''Alice''), cc_date = Some (u ''2024-01-02''),
      original_text = u ''hello'', comment_text = u ''fix this''\<rparr>"

definition alice_block :: pystr where
  "alice_block =
     u ''> **['' @ [25209, 27880] @ u '' #1]** Alice (2024-01-02)'' @ [10]
     @ u ''> **'' @ [21407, 25991] @ u ''**'' @ [65306] @ u ''hello'' @ [10]
     @ u ''> **'' @ [25209, 27880] @ u ''**'' @ [65306] @ u ''fix this''"

subsection \<open>Invariants\<close>

text \<open>The value that the next call of \<open>get_list_marker\<close> for a pair reads.\<close>

definition next_count :: "RenderState \<Rightarrow> pystr \<times> int \<Rightarrow> NumberingLevel \<Rightarrow> int" where
  "next_count st key level = (case list_counters st key of None \<Rightarrow> start level | Some c \<Rightarrow> c)"

text \<open>The ids handed out so far and the ids in the queue are pairwise different, and all
  of them are marked as emitted.\<close>

definition emitted_once :: "pystr list \<Rightarrow> RenderState \<Rightarrow> bool" where
  "emitted_once seen st \<longleftrightarrow>
     distinct (seen @ map cc_comment_id (collected_comments st))
     \<and> set (seen @ map cc_comment_id (collected_comments st)) \<subseteq> emitted_comment_ids st"

text \<open>The buffer has no marker open, and the range has received, after what it held at
  first, the parts of the buffer one by one.\<close>

definition in_step :: "CommentRange \<Rightarrow> pystr \<Rightarrow> RenderOut \<times> RenderState \<Rightarrow> bool" where
  "in_step cr0 cid x \<longleftrightarrow>
     all_closed (fst x)
     \<and> active_comment_ranges (snd x) cid
         = Some (cr0\<lparr>text_parts := text_parts cr0 @ parts (fst x)\<rparr>)"

definition is_open :: "marker \<Rightarrow> bool \<Rightarrow> bool \<Rightarrow> bool \<Rightarrow> bool" where
  "is_open m h b i = (case m of Highlight \<Rightarrow> h | Bold \<Rightarrow> b | Italic \<Rightarrow> i)"

text \<open>What the output loop of the table flattener writes for a list of numbered rows.\<close>

definition emit_lines :: "nat \<Rightarrow> (nat \<times> pystr list) list \<Rightarrow> pystr list" where
  "emit_lines w irows =
     concat (map (\<lambda>(i, row). [table_line (pad_row w row) @ [10]]
                    @ (if i = 0 then [table_line (replicate w (u ''---'')) @ [10]] else [])) irows)"

section \<open>Basic facts\<close>

lemma u_eq_iff [simp]: "u a = u b \<longleftrightarrow> a = b"
  unfolding u_def by (simp add: inj_map_eq_map inj_on_def)

lemma u_Nil_iff [simp]: "u s = [] \<longleftrightarrow> s = []"
  by (simp add: u_def)

lemma qn_eq_iff [simp]: "qn a = qn b \<longleftrightarrow> a = b"
  by (simp add: qn_def)

section \<open>Properties of the traversal state\<close>

text \<open>
  C10.  A comment-range-end whose id has no active range leaves the traversal state as it
  is: \<open>end_comment_range\<close> returns the state it was given, and \<open>_render_node\<close> on a
  \<open>commentRangeEnd\<close> node with that id returns the buffer and the state unchanged.  Nothing
  is asked of the registry, so this holds whether or not it knows the id.
\<close>

theorem end_comment_range_inactive:
  assumes "tag node = qn (u ''commentRangeEnd'')"
    and "get node (qn (u ''id'')) = Some cid"
    and "active_comment_ranges st cid = None"
  shows "end_comment_range st cid = st \<and> render_node node ctx out st = (out, st)"
proof -
  have e: "end_comment_range st cid = st"
    using assms(3) by (simp add: end_comment_range_def)
  obtain tg at tx ch where n: "node = Element tg at tx ch"
    by (cases node)
  have "render_node node ctx out st = (out, st)"
    using assms(1,2) e unfolding n by (simp add: render_node.simps)
  with e show ?thesis by simp
qed

theorem end_comment_range_inactive_witness:
  "tag (elem_id ''commentRangeEnd'' (u ''1'')) = qn (u ''commentRangeEnd'')
   \<and> get (elem_id ''commentRangeEnd'' (u ''1'')) (qn (u ''id'')) = Some (u ''1'')
   \<and> active_comment_ranges (new_RenderState registry1 no_numbering no_styles) (u ''1'') = None
   \<and> comments (new_RenderState registry1 no_numbering no_styles) (u ''1'') = Some alice
   \<and> end_comment_range (new_RenderState registry1 no_numbering no_styles) (u ''1'')
       = new_RenderState registry1 no_numbering no_styles
   \<and> render_node (elem_id ''commentRangeEnd'' (u ''1'')) new_RunContext new_RenderOut
        (new_RenderState registry1 no_numbering no_styles)
       = (new_RenderOut, new_RenderState registry1 no_numbering no_styles)"
  using end_comment_range_inactive [of "elem_id ''commentRangeEnd'' (u ''1'')" "u ''1''"
      "new_RenderState registry1 no_numbering no_styles" new_RunContext new_RenderOut]
  by (simp add: elem_id_def get_def new_RenderState_def registry1_def)

lemma emitted_once_do_call:
  assumes "emitted_once seen st"
  shows "emitted_once (seen @ map cc_comment_id (popped [fst (do_call c st)])) (snd (do_call c st))"
proof (cases c)
  case (EndRange cid)
  then show ?thesis
    using assms
    by (auto simp: emitted_once_def end_comment_range_def Let_def split: option.splits)
next
  case (CommentReference cid)
  then show ?thesis
    using assms
    by (auto simp: emitted_once_def handle_comment_reference_def split: option.splits)
next
  case (GetListMarker nid lv)
  then show ?thesis
    using assms
    by (auto simp: emitted_once_def get_list_marker_def Let_def split: option.splits)
qed (use assms in \<open>auto simp: emitted_once_def start_comment_range_def
       append_to_active_ranges_def pop_collected_comments_def\<close>)

lemma popped_Cons: "popped (r # rs) = popped [r] @ popped rs"
  by (cases r) simp_all

lemma emitted_once_run_calls:
  "emitted_once seen st \<Longrightarrow>
   emitted_once (seen @ map cc_comment_id (popped (fst (run_calls calls st)))) (snd (run_calls calls st))"
proof (induction calls arbitrary: seen st)
  case Nil
  then show ?case by simp
next
  case (Cons c calls)
  obtain r st1 where d: "do_call c st = (r, st1)" by (cases "do_call c st")
  obtain rs st2 where r: "run_calls calls st1 = (rs, st2)" by (cases "run_calls calls st1")
  have "emitted_once (seen @ map cc_comment_id (popped [r])) st1"
    using emitted_once_do_call [OF Cons.prems, of c] d by simp
  from Cons.IH [OF this] have "emitted_once ((seen @ map cc_comment_id (popped [r]))
      @ map cc_comment_id (popped rs)) st2"
    using r by simp
  then show ?case
    using d r popped_Cons [of r rs] by simp
qed

lemma enqueued_distinct:
  "distinct (map cc_comment_id (enqueued (run_calls calls (new_RenderState cs nu sty))))"
proof -
  have "emitted_once [] (new_RenderState cs nu sty)"
    by (simp add: emitted_once_def new_RenderState_def)
  from emitted_once_run_calls [OF this, of calls] show ?thesis
    by (simp add: emitted_once_def enqueued_def)
qed

lemma triggers_emitted:
  assumes "cid \<in> emitted_comment_ids st"
  shows "collected_comments (end_comment_range st cid) = collected_comments st"
    and "handle_comment_reference st cid = st"
  using assms
  by (simp_all add: end_comment_range_def handle_comment_reference_def Let_def split: option.splits)

lemma triggers_unknown:
  assumes "comments st cid = None"
  shows "collected_comments (end_comment_range st cid) = collected_comments st"
    and "handle_comment_reference st cid = st"
  using assms
  by (simp_all add: end_comment_range_def handle_comment_reference_def Let_def split: option.splits)

lemma reference_in_range:
  assumes "active_comment_ranges st cid = Some cr"
  shows "handle_comment_reference st cid = st"
  using assms by (simp add: handle_comment_reference_def)

lemma range_end_emits:
  assumes "cid \<notin> emitted_comment_ids st" and "comments st cid = Some c"
    and "active_comment_ranges st cid = Some cr"
  shows "collected_comments (end_comment_range st cid)
      = collected_comments st @
          [\<lparr>cc_comment_id = cid, cc_author = author c, cc_date = date c,
            original_text = py_join (u '' '') (py_split (py_strip (concat (text_parts cr)))),
            comment_text = ctext c\<rparr>]"
    and "cid \<in> emitted_comment_ids (end_comment_range st cid)"
    and "active_comment_ranges (end_comment_range st cid) cid = None"
  using assms by (simp_all add: end_comment_range_def Let_def)

lemma reference_emits:
  assumes "cid \<notin> emitted_comment_ids st" and "comments st cid = Some c"
    and "active_comment_ranges st cid = None"
  shows "collected_comments (handle_comment_reference st cid)
      = collected_comments st @
          [\<lparr>cc_comment_id = cid, cc_author = author c, cc_date = date c,
            original_text = [], comment_text = ctext c\<rparr>]"
    and "cid \<in> emitted_comment_ids (handle_comment_reference st cid)"
  using assms by (simp_all add: handle_comment_reference_def)

text \<open>
  C4, as the program has it.  Over any sequence of calls on the traversal state, starting
  from a fresh state, the comments that were enqueued (handed out by a pop or still in the
  queue) have pairwise different ids: no id is enqueued twice, however the range-ends and
  the bare references of an id follow each other.  Which of the two triggers enqueues the
  comment depends on the state that it meets.  For an id that has been emitted, or that
  the registry does not know, neither trigger enqueues anything.  A reference that meets
  the active range of its id leaves the state as it is.  For an id of the registry that
  has not been emitted, a range-end that meets the active range enqueues the comment with
  the text of the range and marks the id as emitted, and a reference that meets no active
  range enqueues the comment with an empty original text and marks the id as emitted.
\<close>

theorem comment_enqueued_at_most_once:
  "distinct (map cc_comment_id (enqueued (run_calls calls (new_RenderState cs nu sty))))
   \<and> (cid \<in> emitted_comment_ids st \<or> comments st cid = None \<longrightarrow>
        collected_comments (end_comment_range st cid) = collected_comments st
        \<and> handle_comment_reference st cid = st)
   \<and> (active_comment_ranges st cid = Some cr \<longrightarrow> handle_comment_reference st cid = st)
   \<and> (cid \<notin> emitted_comment_ids st \<and> comments st cid = Some c
        \<and> active_comment_ranges st cid = Some cr \<longrightarrow>
        collected_comments (end_comment_range st cid)
          = collected_comments st @
              [\<lparr>cc_comment_id = cid, cc_author = author c, cc_date = date c,
                original_text = py_join (u '' '') (py_split (py_strip (concat (text_parts cr)))),
                comment_text = ctext c\<rparr>]
        \<and> cid \<in> emitted_comment_ids (end_comment_range st cid))
   \<and> (cid \<notin> emitted_comment_ids st \<and> comments st cid = Some c
        \<and> active_comment_ranges st cid = None \<longrightarrow>
        collected_comments (handle_comment_reference st cid)
          = collected_comments st @
              [\<lparr>cc_comment_id = cid, cc_author = author c, cc_date = date c,
                original_text = [], comment_text = ctext c\<rparr>]
        \<and> cid \<in> emitted_comment_ids (handle_comment_reference st cid))"
  using enqueued_distinct [of calls cs nu sty] triggers_emitted [of cid st]
    triggers_unknown [of st cid] reference_in_range [of st cid cr]
    range_end_emits(1,2) [of cid st c cr] reference_emits [of cid st c]
  by blast

lemma hello_words: "py_join (u '' '') (py_split (py_strip (u ''hello''))) = u ''hello''"
  by (simp add: py_strip_def py_rstrip_def py_lstrip_def py_split_def py_isspace_def u_def)

lemma range_hello_facts:
  "active_comment_ranges (append_to_active_ranges (start_comment_range state0 (u ''1'')) (u ''hello'')) (u ''1'')
     = Some \<lparr>range_comment_id = u ''1'', text_parts = [u ''hello'']\<rparr>"
  "comments (append_to_active_ranges (start_comment_range state0 (u ''1'')) (u ''hello'')) (u ''1'') = Some alice"
  "emitted_comment_ids (append_to_active_ranges (start_comment_range state0 (u ''1'')) (u ''hello'')) = {}"
  "collected_comments (append_to_active_ranges (start_comment_range state0 (u ''1'')) (u ''hello'')) = []"
  by (simp_all add: append_to_active_ranges_def start_comment_range_def state0_def
      new_RenderState_def registry1_def)

theorem comment_enqueued_at_most_once_witness:
  "distinct (map cc_comment_id (enqueued (run_calls
       [StartRange (u ''1''), AppendToRanges (u ''hello''), CommentReference (u ''1''),
        EndRange (u ''1''), CommentReference (u ''1''), EndRange (u ''1'')]
       (new_RenderState registry1 no_numbering no_styles))))
   \<and> u ''1'' \<notin> emitted_comment_ids state0 \<and> comments state0 (u ''1'') = Some alice
   \<and> active_comment_ranges state0 (u ''1'') = None
   \<and> collected_comments (handle_comment_reference state0 (u ''1''))
        = [\<lparr>cc_comment_id = u ''1'', cc_author = Some (u ''Alice''),
            cc_date = Some (u ''2024-01-02''), original_text = [], comment_text = u ''fix this''\<rparr>]
   \<and> active_comment_ranges
        (append_to_active_ranges (start_comment_range state0 (u ''1'')) (u ''hello'')) (u ''1'')
        = Some \<lparr>range_comment_id = u ''1'', text_parts = [u ''hello'']\<rparr>
   \<and> handle_comment_reference
        (append_to_active_ranges (start_comment_range state0 (u ''1'')) (u ''hello'')) (u ''1'')
        = append_to_active_ranges (start_comment_range state0 (u ''1'')) (u ''hello'')
   \<and> collected_comments (end_comment_range
        (append_to_active_ranges (start_comment_range state0 (u ''1'')) (u ''hello'')) (u ''1''))
        = [alice_hello]
   \<and> u ''1'' \<in> emitted_comment_ids (end_comment_range
        (append_to_active_ranges (start_comment_range state0 (u ''1'')) (u ''hello'')) (u ''1''))
   \<and> collected_comments (end_comment_range (end_comment_range
        (append_to_active_ranges (start_comment_range state0 (u ''1'')) (u ''hello'')) (u ''1''))
        (u ''1'')) = [alice_hello]
   \<and> handle_comment_reference (end_comment_range
        (append_to_active_ranges (start_comment_range state0 (u ''1'')) (u ''hello'')) (u ''1''))
        (u ''1'')
        = end_comment_range
            (append_to_active_ranges (start_comment_range state0 (u ''1'')) (u ''hello'')) (u ''1'')"
proof -
  let ?calls = "[StartRange (u ''1''), AppendToRanges (u ''hello''), CommentReference (u ''1''),
        EndRange (u ''1''), CommentReference (u ''1''), EndRange (u ''1'')]"
  let ?s2 = "append_to_active_ranges (start_comment_range state0 (u ''1'')) (u ''hello'')"
  let ?cr = "\<lparr>range_comment_id = u ''1'', text_parts = [u ''hello'']\<rparr>"
  have s0: "u ''1'' \<notin> emitted_comment_ids state0" "comments state0 (u ''1'') = Some alice"
    "active_comment_ranges state0 (u ''1'') = None" "collected_comments state0 = []"
    by (simp_all add: state0_def new_RenderState_def registry1_def)
  note w0 = comment_enqueued_at_most_once [where calls = ?calls and cs = registry1
      and nu = no_numbering and sty = no_styles and cid = "u ''1''" and st = state0
      and c = alice and cr = ?cr]
  note w2 = comment_enqueued_at_most_once [where calls = ?calls and cs = registry1
      and nu = no_numbering and sty = no_styles and cid = "u ''1''" and st = ?s2
      and c = alice and cr = ?cr]
  note w3 = comment_enqueued_at_most_once [where calls = ?calls and cs = registry1
      and nu = no_numbering and sty = no_styles and cid = "u ''1''"
      and st = "end_comment_range ?s2 (u ''1'')" and c = alice and cr = ?cr]
  have a: "collected_comments (handle_comment_reference state0 (u ''1''))
        = [\<lparr>cc_comment_id = u ''1'', cc_author = Some (u ''Alice''),
            cc_date = Some (u ''2024-01-02''), original_text = [], comment_text = u ''fix this''\<rparr>]"
    using w0 s0 by (simp add: alice_def)
  have b: "handle_comment_reference ?s2 (u ''1'') = ?s2"
    "collected_comments (end_comment_range ?s2 (u ''1'')) = [alice_hello]"
    "u ''1'' \<in> emitted_comment_ids (end_comment_range ?s2 (u ''1''))"
    using w2 by (simp_all add: range_hello_facts hello_words alice_hello_def alice_def)
  have c: "collected_comments (end_comment_range (end_comment_range ?s2 (u ''1'')) (u ''1''))
        = [alice_hello]"
    "handle_comment_reference (end_comment_range ?s2 (u ''1'')) (u ''1'')
        = end_comment_range ?s2 (u ''1'')"
    using w3 b(2,3) by simp_all
  from w0 have d: "distinct (map cc_comment_id (enqueued (run_calls ?calls
       (new_RenderState registry1 no_numbering no_styles))))"
    by blast
  show ?thesis
    using a b c d s0(1,2,3) range_hello_facts(1) by simp
qed


text \<open>
  The trigger that fires first need not be the one that enqueues the comment.  With the
  range of comment 1 open around \<open>hello\<close>, the reference to comment 1 comes first and
  enqueues nothing, although the registry knows the comment; the range-end that follows
  enqueues it.
\<close>

theorem reference_in_active_range_is_ignored:
  "registry1 (u ''1'') = Some alice
   \<and> enqueued (run_calls [StartRange (u ''1''), AppendToRanges (u ''hello''),
                          CommentReference (u ''1'')] state0) = []
   \<and> enqueued (run_calls [StartRange (u ''1''), AppendToRanges (u ''hello''),
                          CommentReference (u ''1''), EndRange (u ''1'')] state0) = [alice_hello]"
proof -
  let ?s2 = "append_to_active_ranges (start_comment_range state0 (u ''1'')) (u ''hello'')"
  have h: "handle_comment_reference ?s2 (u ''1'') = ?s2"
    using range_hello_facts(1) by (simp add: handle_comment_reference_def)
  have e: "collected_comments (end_comment_range ?s2 (u ''1'')) = [alice_hello]"
    using range_end_emits(1) [of "u ''1''" ?s2 alice "\<lparr>range_comment_id = u ''1'', text_parts = [u ''hello'']\<rparr>"]
    by (simp add: range_hello_facts hello_words alice_hello_def alice_def)
  show ?thesis
    by (simp add: enqueued_def h e range_hello_facts(4) registry1_def)
qed


text \<open>
  C6.  A non-empty text fragment that goes through \<open>append_text\<close> is appended to the
  accumulated text of every range that is active.  In particular, with two ranges \<open>a\<close>
  and \<open>b\<close> opened before the fragment \<open>"x"\<close>, both known to the registry, ending both
  gives two collected comments whose original text is \<open>"x"\<close>.
\<close>

theorem append_text_reaches_active_ranges:
  "(frag \<noteq> [] \<and> active_comment_ranges st cid = Some cr \<longrightarrow>
      active_comment_ranges (snd (append_text out frag ctx st)) cid
        = Some (cr\<lparr>text_parts := text_parts cr @ [frag]\<rparr>))
   \<and> (a \<noteq> b \<and> cs a = Some ca \<and> cs b = Some cb \<longrightarrow>
      map (\<lambda>c. (cc_comment_id c, original_text c))
        (collected_comments
          (end_comment_range
            (end_comment_range
              (snd (append_text new_RenderOut (u ''x'') ctx
                (start_comment_range (start_comment_range (new_RenderState cs nu sty) a) b)))
              a) b))
        = [(a, u ''x''), (b, u ''x'')])"
proof -
  have A: "frag \<noteq> [] \<and> active_comment_ranges st cid = Some cr \<longrightarrow>
      active_comment_ranges (snd (append_text out frag ctx st)) cid
        = Some (cr\<lparr>text_parts := text_parts cr @ [frag]\<rparr>)"
    by (simp add: append_text_def append_to_active_ranges_def Let_def)
  have x: "py_join (u '' '') (py_split (py_strip (u ''x''))) = u ''x''"
    by (simp add: py_strip_def py_rstrip_def py_lstrip_def py_split_def py_isspace_def u_def)
  have B: "a \<noteq> b \<and> cs a = Some ca \<and> cs b = Some cb \<longrightarrow>
      map (\<lambda>c. (cc_comment_id c, original_text c))
        (collected_comments
          (end_comment_range
            (end_comment_range
              (snd (append_text new_RenderOut (u ''x'') ctx
                (start_comment_range (start_comment_range (new_RenderState cs nu sty) a) b)))
              a) b))
        = [(a, u ''x''), (b, u ''x'')]"
    by (simp add: append_text_def append_to_active_ranges_def Let_def start_comment_range_def
        end_comment_range_def new_RenderState_def x)
  from A B show ?thesis by blast
qed

theorem append_text_reaches_active_ranges_witness:
  "u ''x'' \<noteq> []
   \<and> active_comment_ranges
        (start_comment_range
          (start_comment_range (new_RenderState registry2 no_numbering no_styles) (u ''A''))
          (u ''B'')) (u ''A'')
       = Some \<lparr>range_comment_id = u ''A'', text_parts = []\<rparr>
   \<and> active_comment_ranges
        (snd (append_text new_RenderOut (u ''x'') new_RunContext
          (start_comment_range
            (start_comment_range (new_RenderState registry2 no_numbering no_styles) (u ''A''))
            (u ''B'')))) (u ''A'')
       = Some \<lparr>range_comment_id = u ''A'', text_parts = [u ''x'']\<rparr>
   \<and> u ''A'' \<noteq> u ''B''
   \<and> registry2 (u ''A'') = Some commentA \<and> registry2 (u ''B'') = Some commentB
   \<and> map (\<lambda>c. (cc_comment_id c, original_text c))
        (collected_comments
          (end_comment_range
            (end_comment_range
              (snd (append_text new_RenderOut (u ''x'') new_RunContext
                (start_comment_range
                  (start_comment_range (new_RenderState registry2 no_numbering no_styles) (u ''A''))
                  (u ''B''))))
              (u ''A'')) (u ''B'')))
       = [(u ''A'', u ''x''), (u ''B'', u ''x'')]"
  using append_text_reaches_active_ranges [where frag = "u ''x''"
      and st = "start_comment_range
          (start_comment_range (new_RenderState registry2 no_numbering no_styles) (u ''A''))
          (u ''B'')"
      and cid = "u ''A''" and cr = "\<lparr>range_comment_id = u ''A'', text_parts = []\<rparr>"
      and out = new_RenderOut and ctx = new_RunContext
      and a = "u ''A''" and b = "u ''B''" and cs = registry2
      and ca = commentA and cb = commentB and nu = no_numbering and sty = no_styles]
  by (simp add: start_comment_range_def new_RenderState_def registry2_def)

section \<open>Properties of the list markers\<close>

lemma numbering_do_call: "numbering (snd (do_call c st)) = numbering st"
  by (cases c)
    (auto simp: start_comment_range_def append_to_active_ranges_def end_comment_range_def
      handle_comment_reference_def pop_collected_comments_def get_list_marker_def Let_def
      split: option.splits)

lemma ordered_not_bullet: "f \<in> set ordered_formats \<Longrightarrow> f \<noteq> u ''bullet''"
  by (auto simp: ordered_formats_def)

lemma list_counters_do_call_other:
  "c \<noteq> GetListMarker nid lv \<Longrightarrow> list_counters (snd (do_call c st)) (nid, lv) = list_counters st (nid, lv)"
  by (cases c)
    (auto simp: start_comment_range_def append_to_active_ranges_def end_comment_range_def
      handle_comment_reference_def pop_collected_comments_def get_list_marker_def Let_def
      split: option.splits)

lemma get_list_marker_ordered:
  assumes "get_level (numbering st) nid lv = Some level" and "num_fmt level \<in> set ordered_formats"
  shows "get_list_marker st nid lv =
     (py_repeat (u ''  '') lv @ py_str_int (next_count st (nid, lv) level) @ u ''. '',
      st\<lparr>list_counters := (list_counters st)((nid, lv) \<mapsto> next_count st (nid, lv) level + 1)\<rparr>)"
  using assms ordered_not_bullet [OF assms(2)]
  by (simp add: get_list_marker_def next_count_def Let_def)

lemma next_count_do_call:
  assumes "get_level (numbering st) nid lv = Some level" and "num_fmt level \<in> set ordered_formats"
  shows "next_count (snd (do_call c st)) (nid, lv) level =
     next_count st (nid, lv) level + (if c = GetListMarker nid lv then 1 else 0)"
proof (cases "c = GetListMarker nid lv")
  case True
  then show ?thesis
    using get_list_marker_ordered [OF assms] by (simp add: next_count_def)
next
  case False
  then show ?thesis
    using list_counters_do_call_other [OF False, of st] by (simp add: next_count_def)
qed

lemma run_calls_marker:
  assumes "get_level (numbering st) nid lv = Some level" and "num_fmt level \<in> set ordered_formats"
    and "i < length calls" and "calls ! i = GetListMarker nid lv"
  shows "fst (run_calls calls st) ! i =
     Marker (py_repeat (u ''  '') lv
       @ py_str_int (next_count st (nid, lv) level
            + int (length (filter (\<lambda>c. c = GetListMarker nid lv) (take i calls))))
       @ u ''. '')"
  using assms
proof (induction calls arbitrary: i st)
  case Nil
  then show ?case by simp
next
  case (Cons c calls)
  obtain r st1 where d: "do_call c st = (r, st1)" by (cases "do_call c st")
  obtain rs st2 where r: "run_calls calls st1 = (rs, st2)" by (cases "run_calls calls st1")
  have st1: "st1 = snd (do_call c st)" using d by simp
  show ?case
  proof (cases i)
    case 0
    then have "c = GetListMarker nid lv" using Cons.prems by simp
    then show ?thesis
      using 0 d r get_list_marker_ordered [OF Cons.prems(1,2)] by simp
  next
    case (Suc j)
    have lv1: "get_level (numbering st1) nid lv = Some level"
      using Cons.prems(1) by (simp add: st1 numbering_do_call)
    have j: "j < length calls" "calls ! j = GetListMarker nid lv"
      using Cons.prems(3,4) Suc by simp_all
    have "fst (run_calls calls st1) ! j =
       Marker (py_repeat (u ''  '') lv
         @ py_str_int (next_count st1 (nid, lv) level
              + int (length (filter (\<lambda>c. c = GetListMarker nid lv) (take j calls))))
         @ u ''. '')"
      by (rule Cons.IH [OF lv1 Cons.prems(2) j])
    moreover have "next_count st1 (nid, lv) level =
       next_count st (nid, lv) level + (if c = GetListMarker nid lv then 1 else 0)"
      unfolding st1 by (rule next_count_do_call [OF Cons.prems(1,2)])
    ultimately show ?thesis
      using Suc d r by (simp add: add.assoc)
  qed
qed

text \<open>
  C5.  For a pair that resolves to a level of an ordered format, the call of
  \<open>get_list_marker\<close> at position \<open>i\<close> of any sequence of calls from a fresh state returns
  the indent, then the decimal rendering of the start value plus the number of earlier
  calls for the same pair, then \<open>". "\<close>: the k-th call gives start + k - 1, whatever the
  ordered family, and nothing in between resets the count.  For a bullet level every call
  returns the indent and \<open>"- "\<close> and the state it was given.
\<close>

theorem get_list_marker_counts:
  "(get_level nu nid lv = Some level \<and> num_fmt level \<in> set ordered_formats
      \<and> i < length calls \<and> calls ! i = GetListMarker nid lv \<longrightarrow>
      fst (run_calls calls (new_RenderState cs nu sty)) ! i =
        Marker (py_repeat (u ''  '') lv
          @ py_str_int (start level
               + int (length (filter (\<lambda>c. c = GetListMarker nid lv) (take i calls))))
          @ u ''. ''))
   \<and> (get_level (numbering st) nid lv = Some level \<and> num_fmt level = u ''bullet'' \<longrightarrow>
      get_list_marker st nid lv = (py_repeat (u ''  '') lv @ u ''- '', st))"
proof -
  have s: "next_count (new_RenderState cs nu sty) (nid, lv) level = start level"
    by (simp add: next_count_def new_RenderState_def)
  have n: "numbering (new_RenderState cs nu sty) = nu"
    by (simp add: new_RenderState_def)
  have A: "get_level nu nid lv = Some level \<and> num_fmt level \<in> set ordered_formats
      \<and> i < length calls \<and> calls ! i = GetListMarker nid lv \<longrightarrow>
      fst (run_calls calls (new_RenderState cs nu sty)) ! i =
        Marker (py_repeat (u ''  '') lv
          @ py_str_int (start level
               + int (length (filter (\<lambda>c. c = GetListMarker nid lv) (take i calls))))
          @ u ''. '')"
    using run_calls_marker [of "new_RenderState cs nu sty" nid lv level i calls]
    by (simp add: s n)
  have B: "get_level (numbering st) nid lv = Some level \<and> num_fmt level = u ''bullet'' \<longrightarrow>
      get_list_marker st nid lv = (py_repeat (u ''  '') lv @ u ''- '', st)"
    by (simp add: get_list_marker_def Let_def)
  from A B show ?thesis by blast
qed


theorem get_list_marker_counts_witness:
  "get_level numbering1 (u ''5'') 0 = Some decimal_level
   \<and> num_fmt decimal_level \<in> set ordered_formats
   \<and> fst (run_calls [GetListMarker (u ''5'') 0, PopCollected, GetListMarker (u ''5'') 0,
                      GetListMarker (u ''5'') 1, GetListMarker (u ''5'') 0]
             (new_RenderState registry1 numbering1 no_styles))
       = [Marker (u ''1. ''), Popped [], Marker (u ''2. ''), Marker (u ''  - ''), Marker (u ''3. '')]
   \<and> get_level numbering1 (u ''5'') 1 = Some bullet_level
   \<and> get_list_marker (new_RenderState registry1 numbering1 no_styles) (u ''5'') 1
       = (u ''  - '', new_RenderState registry1 numbering1 no_styles)"
  using get_list_marker_counts [where nu = numbering1 and nid = "u ''5''" and lv = 0
      and level = decimal_level and i = 4
      and calls = "[GetListMarker (u ''5'') 0, PopCollected, GetListMarker (u ''5'') 0,
                    GetListMarker (u ''5'') 1, GetListMarker (u ''5'') 0]"
      and cs = registry1 and sty = no_styles
      and st = "new_RenderState registry1 numbering1 no_styles"]
    get_list_marker_counts [where nu = numbering1 and nid = "u ''5''" and lv = 1
      and level = bullet_level and i = 0 and calls = "[]"
      and cs = registry1 and sty = no_styles
      and st = "new_RenderState registry1 numbering1 no_styles"]
  by (simp add: get_level_def numbering1_def decimal_level_def bullet_level_def
      ordered_formats_def new_RenderState_def get_list_marker_def pop_collected_comments_def
      py_repeat_def py_str_int_def digits_of.simps u_def)

text \<open>
  The marker when no level resolves, at depth 2: the function returns \<open>"- "\<close> before it
  computes the indent, so the marker is not the indented one of the claim C2.
\<close>

theorem get_list_marker_unresolved_depth2:
  "get_level (numbering (new_RenderState registry1 no_numbering no_styles)) (u ''7'') 2 = None
   \<and> fst (get_list_marker (new_RenderState registry1 no_numbering no_styles) (u ''7'') 2) = u ''- ''
   \<and> fst (get_list_marker (new_RenderState registry1 no_numbering no_styles) (u ''7'') 2)
       \<noteq> py_repeat (u ''  '') 2 @ u ''- ''"
  by (simp add: get_list_marker_def get_level_def no_numbering_def new_RenderState_def
      py_repeat_def u_def)

section \<open>Properties of the output buffer\<close>

lemma close_all_formats_parts:
  "parts (close_all_formats out) =
     parts out @ map piece_str (closing (highlight_open out) (bold_open out) (italic_open out))"
  by (simp add: close_all_formats_def closing_def Let_def)

lemma close_all_formats_flags:
  "highlight_open (close_all_formats out) = False"
  "bold_open (close_all_formats out) = False"
  "italic_open (close_all_formats out) = False"
  by (simp_all add: close_all_formats_def Let_def)

lemma append_text_pieces:
  "txt \<noteq> [] \<Longrightarrow>
   parts (fst (append_text out txt ctx st)) =
     parts out
     @ map piece_str ((if highlight ctx \<noteq> highlight_open out then [Mark Highlight] else [])
         @ (if bold ctx \<noteq> bold_open out then [Mark Bold] else [])
         @ (if italic ctx \<noteq> italic_open out then [Mark Italic] else [])
         @ [Txt txt])
   \<and> highlight_open (fst (append_text out txt ctx st)) = highlight ctx
   \<and> bold_open (fst (append_text out txt ctx st)) = bold ctx
   \<and> italic_open (fst (append_text out txt ctx st)) = italic ctx"
  by (auto simp: append_text_def Let_def)

lemma append_literal_pieces:
  "parts (fst (append_literal out lit st)) =
     parts out
     @ map piece_str (closing (highlight_open out) (bold_open out) (italic_open out)
         @ (if lit \<noteq> [] then [Txt lit] else []))
   \<and> highlight_open (fst (append_literal out lit st)) = False
   \<and> bold_open (fst (append_literal out lit st)) = False
   \<and> italic_open (fst (append_literal out lit st)) = False"
  by (simp add: append_literal_def Let_def close_all_formats_parts close_all_formats_flags)

lemma run_buffer_pieces:
  "parts (close_all_formats (fst (run_buffer calls out st))) =
     parts out @ map piece_str (pieces calls (highlight_open out) (bold_open out) (italic_open out))"
proof (induction calls arbitrary: out st)
  case Nil
  show ?case by (simp add: close_all_formats_parts)
next
  case (Cons c calls)
  show ?case
  proof (cases c)
    case (EmitText t ctx)
    show ?thesis
    proof (cases "t = []")
      case True
      then show ?thesis using EmitText Cons.IH [of out st] by (simp add: append_text_def)
    next
      case False
      obtain out1 st1 where a: "append_text out t ctx st = (out1, st1)"
        by (cases "append_text out t ctx st")
      from append_text_pieces [OF False, of out ctx st] a Cons.IH [of out1 st1]
      show ?thesis using EmitText False by simp
    qed
  next
    case (EmitLiteral lit)
    obtain out1 st1 where a: "append_literal out lit st = (out1, st1)"
      by (cases "append_literal out lit st")
    from append_literal_pieces [of out lit st] a Cons.IH [of out1 st1]
    show ?thesis using EmitLiteral by simp
  qed
qed

lemma even_closing:
  "even (length (filter (\<lambda>p. p = Mark m) (closing h b i)) + (if is_open m h b i then 1 else 0))"
  by (cases m) (simp_all add: closing_def is_open_def)

lemma even_pieces:
  "even (length (filter (\<lambda>p. p = Mark m) (pieces calls h b i)) + (if is_open m h b i then 1 else 0))"
proof (induction calls h b i rule: pieces.induct)
  case (1 h b i)
  show ?case using even_closing [of m h b i] by simp
next
  case (2 t ctx cs h b i)
  then show ?case by (cases m) (auto simp: is_open_def)
next
  case (3 lit cs h b i)
  then show ?case using even_closing [of m h b i] by (cases m) (auto simp: is_open_def)
qed

text \<open>
  C3.  \<open>finish\<close> appends to any buffer the markers that are still open, in the order
  italic, bold, highlight.  After any sequence of \<open>append_text\<close> and \<open>append_literal\<close>
  calls on a fresh buffer, the parts of the finished buffer are, one by one, the pieces
  that section 4.1 of the specification describes, the string that \<open>finish\<close> returns is
  their concatenation, and each of the three markers was written an even number of times:
  every marker that was opened has been closed.
\<close>

theorem finish_balanced:
  "parts (close_all_formats out) =
     parts out @ map piece_str (closing (highlight_open out) (bold_open out) (italic_open out))
   \<and> parts (close_all_formats (fst (run_buffer calls new_RenderOut st)))
       = map piece_str (pieces calls False False False)
   \<and> finish (fst (run_buffer calls new_RenderOut st))
       = concat (map piece_str (pieces calls False False False))
   \<and> even (length (filter (\<lambda>p. p = Mark m) (pieces calls False False False)))"
proof -
  have p: "parts (close_all_formats (fst (run_buffer calls new_RenderOut st)))
       = map piece_str (pieces calls False False False)"
    using run_buffer_pieces [of calls new_RenderOut st] by (simp add: new_RenderOut_def)
  have e: "even (length (filter (\<lambda>p. p = Mark m) (pieces calls False False False)))"
    using even_pieces [of m calls False False False] by (cases m) (simp_all add: is_open_def)
  show ?thesis
    using p e by (simp add: finish_def close_all_formats_parts)
qed

section \<open>Properties of the style resolver\<close>

lemma digit_value_ascii: "48 \<le> c \<Longrightarrow> c \<le> 57 \<Longrightarrow> digit_value c = Some (c - 48)"
  by (simp add: digit_value_def decimal_zeros_def)

lemma digit_value_arabic_three: "digit_value 1635 = Some 3"
  by (simp add: digit_value_def decimal_zeros_def)

lemma py_int_1: "py_int (u ''1'') = Some 1"
  by (simp add: py_int_def int_isspace_def py_isspace_def int_digits_def int_max_str_digits_def
      is_digit_def digit_value_ascii u_def)

lemma match_heading_1: "match_heading (py_lower (u ''Heading 1'')) = Some (u ''1'')"
  by (simp add: match_heading_def py_lower_def lower_char_def u_def is_digit_def
      digit_value_ascii py_isspace_def)

text \<open>
  The number of a display name is read in every script.  In the name \<open>Heading 1\<close> followed
  by U+0663 the pattern takes both digits and \<open>int\<close> reads 13, which is not a heading
  level: the style keeps the level 2 of its outline level.
\<close>

lemma heading_number_in_two_scripts:
  "match_heading (py_lower (u ''Heading 1'' @ [1635])) = Some [49, 1635]
   \<and> py_int [49, 1635] = Some 13
   \<and> parse_style no_styles heading13_style = Inr \<lparr>heading_levels = [u ''Title2'' \<mapsto> 2]\<rparr>"
proof -
  have m: "match_heading (py_lower (u ''Heading 1'' @ [1635])) = Some [49, 1635]"
    by (simp add: match_heading_def py_lower_def lower_char_def u_def is_digit_def
        digit_value_ascii digit_value_arabic_three py_isspace_def)
  have i: "py_int [49, 1635] = Some 13"
    by (simp add: py_int_def int_isspace_def py_isspace_def int_digits_def
        int_max_str_digits_def is_digit_def digit_value_ascii digit_value_arabic_three)
  have "parse_style no_styles heading13_style = Inr \<lparr>heading_levels = [u ''Title2'' \<mapsto> 2]\<rparr>"
    by (simp add: parse_style_def heading13_style_def get_def find_child_def elem_def
        elem_val_def py_int_1 m i no_styles_def)
  with m i show ?thesis by simp
qed

text \<open>
  C7.  A style definition with a style id, an outline level between 0 and 5 and a display
  name that matches the heading pattern with a number \<open>n\<close> between 1 and 6 is recorded
  with heading level \<open>n\<close>: the level from the name replaces the one from the outline
  level.  The number is what \<open>int\<close> reads from the digits that the pattern takes.  The
  style of the specification's example (outline level 1, name \<open>Heading 1\<close>) resolves to
  level 1, where the outline level alone gives 2.
\<close>

theorem name_pattern_overrides_outline:
  assumes "get style (qn (u ''styleId'')) = Some sid" and "sid \<noteq> []"
    and "find_child style (qn (u ''pPr'')) = Some ppr"
    and "find_child ppr (qn (u ''outlineLvl'')) = Some outline"
    and "get outline (qn (u ''val'')) = Some v"
    and "py_int v = Some lvl" and "0 \<le> lvl" and "lvl \<le> 5"
    and "find_child style (qn (u ''name'')) = Some name_el"
    and "get name_el (qn (u ''val'')) = Some name"
    and "match_heading (py_lower name) = Some digits"
    and "py_int digits = Some n" and "1 \<le> n" and "n \<le> 6"
  shows "parse_style info style = Inr (info\<lparr>heading_levels := (heading_levels info)(sid \<mapsto> n)\<rparr>)"
  using assms by (simp add: parse_style_def)

theorem name_pattern_overrides_outline_witness:
  "get heading_style (qn (u ''styleId'')) = Some (u ''Title2'')
   \<and> py_int (u ''1'') = Some 1
   \<and> match_heading (py_lower (u ''Heading 1'')) = Some (u ''1'')
   \<and> parse_style no_styles outline_style = Inr \<lparr>heading_levels = [u ''Title2'' \<mapsto> 2]\<rparr>
   \<and> parse_style no_styles heading_style = Inr \<lparr>heading_levels = [u ''Title2'' \<mapsto> 1]\<rparr>
   \<and> parse_styles (Some (elem ''styles'' [heading_style])) = Inr \<lparr>heading_levels = [u ''Title2'' \<mapsto> 1]\<rparr>"
proof -
  have h: "parse_style no_styles heading_style = Inr \<lparr>heading_levels = [u ''Title2'' \<mapsto> 1]\<rparr>"
    using name_pattern_overrides_outline [where style = heading_style and sid = "u ''Title2''"
        and ppr = "elem ''pPr'' [elem_val ''outlineLvl'' (u ''1'')]"
        and outline = "elem_val ''outlineLvl'' (u ''1'')" and v = "u ''1''" and lvl = 1
        and name_el = "elem_val ''name'' (u ''Heading 1'')" and name = "u ''Heading 1''"
        and digits = "u ''1''" and n = 1 and info = no_styles]
    by (simp add: heading_style_def get_def find_child_def elem_def elem_val_def py_int_1
        match_heading_1 no_styles_def)
  have o: "parse_style no_styles outline_style = Inr \<lparr>heading_levels = [u ''Title2'' \<mapsto> 2]\<rparr>"
    by (simp add: parse_style_def outline_style_def get_def find_child_def elem_def
        elem_val_def py_int_1 no_styles_def)
  have d: "findall_descendants (elem ''styles'' [heading_style]) (qn (u ''style'')) = [heading_style]"
    by (simp add: findall_descendants_def elem_def heading_style_def elem_val_def)
  have "parse_styles (Some (elem ''styles'' [heading_style])) = Inr \<lparr>heading_levels = [u ''Title2'' \<mapsto> 1]\<rparr>"
    using h by (simp add: parse_styles_def d no_styles_def)
  with h o show ?thesis by (simp add: heading_style_def get_def py_int_1 match_heading_1)
qed

section \<open>Properties of the table flattener\<close>

lemma render_table_collect:
  "render_table tbl ctx out st =
     (let (rows, st1) = collect_rows tbl st
      in if rows = [] then (out, st1)
         else let max_cols = max_len rows
              in if max_cols = 0 then (out, st1)
                 else emit_rows max_cols (enumerate 0 rows) out st1)"
  by (simp add: render_table.simps collect_rows_def)

lemma max_len_Max: "rows \<noteq> [] \<Longrightarrow> max_len rows = Max (set (map length rows))"
proof -
  assume "rows \<noteq> []"
  have "max_len rows = Max (set (0 # map length rows))"
    unfolding max_len_def by (simp only: Max.set_eq_fold)
  also have "\<dots> = Max (set (map length rows))"
    using \<open>rows \<noteq> []\<close> by (simp add: max_def)
  finally show ?thesis .
qed

lemma closed_close_all_formats:
  "\<not> highlight_open out \<Longrightarrow> \<not> bold_open out \<Longrightarrow> \<not> italic_open out \<Longrightarrow>
   close_all_formats out = out"
  by (simp add: close_all_formats_def)

lemma emit_rows_parts:
  "parts (fst (emit_rows w irows out st)) =
     (if irows = [] then parts out else parts (close_all_formats out) @ emit_lines w irows)"
proof (induction irows arbitrary: out st)
  case Nil
  show ?case by simp
next
  case (Cons ir irows)
  obtain i row where ir: "ir = (i, row)" by (cases ir)
  define line where "line = u ''| '' @ py_join (u '' | '') (pad_row w row) @ u '' |''"
  define sep where "sep = u ''| '' @ py_join (u '' | '') (replicate w (u ''---'')) @ u '' |''"
  obtain out1 st1 where a1: "append_literal out (line @ [10]) st = (out1, st1)"
    by (cases "append_literal out (line @ [10]) st")
  obtain out2 st2 where a2:
    "(if i = 0 then append_literal out1 (sep @ [10]) st1 else (out1, st1)) = (out2, st2)"
    by (cases "if i = 0 then append_literal out1 (sep @ [10]) st1 else (out1, st1)")
  have p1: "parts out1 = parts (close_all_formats out) @ [line @ [10]]"
    and f1: "\<not> highlight_open out1" "\<not> bold_open out1" "\<not> italic_open out1"
    using append_literal_pieces [of out "line @ [10]" st] a1
    by (simp_all add: close_all_formats_parts)
  have p2: "parts out2 = parts out1 @ (if i = 0 then [sep @ [10]] else [])"
    and f2: "\<not> highlight_open out2" "\<not> bold_open out2" "\<not> italic_open out2"
    using append_literal_pieces [of out1 "sep @ [10]" st1] a2 f1
    by (auto simp: closing_def split: if_splits)
  have c2: "close_all_formats out2 = out2"
    using f2 by (rule closed_close_all_formats)
  have step: "emit_rows w (ir # irows) out st = emit_rows w irows out2 st2"
    using a1 a2 unfolding ir line_def sep_def by (auto simp: Let_def)
  have "parts (fst (emit_rows w irows out2 st2)) = parts out2 @ emit_lines w irows"
    using Cons.IH [of out2 st2] c2 by (simp add: emit_lines_def)
  then show ?case
    unfolding step by (simp add: p1 p2 ir emit_lines_def table_line_def line_def sep_def)
qed

lemma emit_lines_later:
  "0 < n \<Longrightarrow> emit_lines w (enumerate n rows) = map (\<lambda>row. table_line (pad_row w row) @ [10]) rows"
  by (induction rows arbitrary: n) (simp_all add: emit_lines_def)

lemma emit_lines_spec:
  assumes "rows \<noteq> []"
  shows "emit_lines (max_len rows) (enumerate 0 rows) = map (\<lambda>l. l @ [10]) (spec_table_lines rows)"
proof -
  obtain first rest where r: "rows = first # rest" using assms by (cases rows) auto
  have w: "Max (set (map length rows)) = max_len rows"
    using max_len_Max [OF assms] by simp
  have "emit_lines (max_len rows) (enumerate 0 rows) =
      [table_line (pad_row (max_len rows) first) @ [10],
       table_line (replicate (max_len rows) (u ''---'')) @ [10]]
      @ emit_lines (max_len rows) (enumerate (Suc 0) rest)"
    by (simp add: r emit_lines_def)
  also have "emit_lines (max_len rows) (enumerate (Suc 0) rest) =
      map (\<lambda>row. table_line (pad_row (max_len rows) row) @ [10]) rest"
    by (rule emit_lines_later) simp
  finally show ?thesis
    unfolding spec_table_lines_def w by (simp add: r pad_row_def Let_def comp_def)
qed

lemma tag_elem [simp]: "tag (elem n ch) = qn (u n)" "children (elem n ch) = ch"
  by (simp_all add: elem_def)

lemma rstrip_letters:
  "py_rstrip (u ''a'') = u ''a''" "py_rstrip (u ''b'') = u ''b''" "py_rstrip (u ''c'') = u ''c''"
  "py_rstrip (u ''d'') = u ''d''" "py_rstrip (u ''e'') = u ''e''"
  "py_strip (u ''a'') = u ''a''" "py_strip (u ''b'') = u ''b''" "py_strip (u ''c'') = u ''c''"
  "py_strip (u ''d'') = u ''d''" "py_strip (u ''e'') = u ''e''"
  by (simp_all add: py_strip_def py_lstrip_def py_rstrip_def py_isspace_def u_def)

lemma run_text:
  "render_node (elem ''r'' [text_leaf x]) new_RunContext out st = append_text out x new_RunContext st"
  by (simp add: render_node.simps elem_def text_leaf_def get_run_context_def find_child_def
      new_RunContext_def)

lemma para_text:
  "render_node (elem ''p'' [elem ''r'' [text_leaf x]]) new_RunContext out st
     = append_text out x new_RunContext st"
  by (simp add: render_node.simps elem_def [of "''p''"] run_text)

lemma finish_text:
  "finish (fst (append_text new_RenderOut x new_RunContext st)) = x"
  by (simp add: append_text_def new_RenderOut_def new_RunContext_def finish_def
      close_all_formats_def)

lemma content_cell:
  "fst (render_paragraph_content (elem ''p'' [elem ''r'' [text_leaf x]]) st) = py_rstrip x"
  by (simp add: render_paragraph_content.simps para_text finish_text split_beta)


lemma cell_paragraphs:
  "findall_descendants (cell s) (qn (u ''p'')) = [elem ''p'' [elem ''r'' [text_leaf (u s)]]]"
  by (simp add: findall_descendants_def cell_def elem_def text_leaf_def)

lemma cell_tag [simp]: "tag (cell s) = qn (u ''tc'')"
  by (simp add: cell_def)

lemma cell_text:
  "fold (\<lambda>p (cell_parts, s).
       case render_paragraph_content p s of
         (content, s1) \<Rightarrow> (if content \<noteq> [] then cell_parts @ [content] else cell_parts, s1))
     (findall_descendants (cell x) (qn (u ''p''))) ([], st)
   = (if py_rstrip (u x) \<noteq> [] then [py_rstrip (u x)] else [],
      snd (render_paragraph_content (elem ''p'' [elem ''r'' [text_leaf (u x)]]) st))"
  using content_cell [of "u x" st]
  by (simp add: cell_paragraphs split_beta)

lemma rows23:
  "fst (collect_rows table23 (new_RenderState registry1 no_numbering no_styles))
     = [[u ''a'', u ''b''], [u ''c'', u ''d'', u ''e'']]"
  by (simp add: collect_rows_def table23_def findall_children_def cell_text rstrip_letters)


text \<open>
  C8.  For a table whose collected rows are not empty and hold at least one cell, what
  \<open>_render_table\<close> appends to the buffer (after closing the markers that were open) is,
  line by line and each followed by a newline, the flattened table of the specification:
  every row padded on the right with empty cells to the maximum cell count and written
  between \<open>"| "\<close>, \<open>" | "\<close> and \<open>" |"\<close>, and after the first row a row of \<open>"---"\<close>
  cells of the same width.
\<close>

theorem render_table_lines:
  assumes "collect_rows tbl st = (rows, st1)" and "rows \<noteq> []" and "\<exists>row\<in>set rows. row \<noteq> []"
  shows "parts (fst (render_table tbl ctx out st)) =
     parts (close_all_formats out) @ map (\<lambda>l. l @ [10]) (spec_table_lines rows)"
proof -
  from assms(3) obtain row where row: "row \<in> set rows" "0 < length row" by auto
  have "length row \<le> Max (set (map length rows))"
    using row(1) by (intro Max_ge) auto
  with row(2) have "0 < Max (set (map length rows))"
    by linarith
  then have m: "max_len rows \<noteq> 0"
    using max_len_Max [OF assms(2)] by simp
  have "render_table tbl ctx out st = emit_rows (max_len rows) (enumerate 0 rows) out st1"
    using assms(1,2) m by (simp add: render_table_collect)
  then show ?thesis
    using emit_rows_parts [of "max_len rows" "enumerate 0 rows" out st1] assms(2)
      emit_lines_spec [OF assms(2)]
    by (simp add: enumerate_eq_zip)
qed

theorem render_table_lines_witness:
  "fst (collect_rows table23 (new_RenderState registry1 no_numbering no_styles))
     = [[u ''a'', u ''b''], [u ''c'', u ''d'', u ''e'']]
   \<and> spec_table_lines [[u ''a'', u ''b''], [u ''c'', u ''d'', u ''e'']]
     = [u ''| a | b |  |'', u ''| --- | --- | --- |'', u ''| c | d | e |'']
   \<and> parts (fst (render_table table23 new_RunContext new_RenderOut
        (new_RenderState registry1 no_numbering no_styles)))
     = [u ''| a | b |  |'' @ [10], u ''| --- | --- | --- |'' @ [10], u ''| c | d | e |'' @ [10]]"
proof -
  have l: "spec_table_lines [[u ''a'', u ''b''], [u ''c'', u ''d'', u ''e'']]
     = [u ''| a | b |  |'', u ''| --- | --- | --- |'', u ''| c | d | e |'']"
    by (simp add: spec_table_lines_def table_line_def u_def numeral_3_eq_3)
  have c: "collect_rows table23 (new_RenderState registry1 no_numbering no_styles)
     = ([[u ''a'', u ''b''], [u ''c'', u ''d'', u ''e'']],
        snd (collect_rows table23 (new_RenderState registry1 no_numbering no_styles)))"
    using rows23 by (simp add: prod_eq_iff)
  show ?thesis
    using render_table_lines [OF c, of new_RunContext new_RenderOut] rows23 l
    by (simp add: close_all_formats_def new_RenderOut_def)
qed

section \<open>Properties of tracked revisions\<close>

lemma render_node_ins:
  "render_node (Element (qn (u ''ins'')) at tx ch) ctx out st =
     (let (inner, st1) = render_isolated ch ctx st; t = finish inner
      in if t \<noteq> [] then append_literal out (u ''{+'' @ t @ u ''+}'') st1 else (out, st1))"
  by (simp add: render_node.simps render_isolated_def)

lemma render_node_del:
  "render_node (Element (qn (u ''del'')) at tx ch) ctx out st =
     (let (inner, st1) = render_isolated ch ctx st; t = finish inner
      in if t \<noteq> [] then append_literal out (u ''[-'' @ t @ u ''-]'') st1 else (out, st1))"
  by (simp add: render_node.simps render_isolated_def)

lemma active_append_literal:
  "lit \<noteq> [] \<Longrightarrow>
   active_comment_ranges (snd (append_literal out lit st)) cid =
     map_option (\<lambda>cr. cr\<lparr>text_parts := text_parts cr @ [lit]\<rparr>) (active_comment_ranges st cid)"
  by (simp add: append_literal_def append_to_active_ranges_def Let_def)

lemma in_step_append_text:
  assumes "in_step cr0 cid (out, s)"
  shows "in_step cr0 cid (append_text out t new_RunContext s)"
  using assms
  by (simp add: in_step_def append_text_def new_RunContext_def all_closed_def
      append_to_active_ranges_def)

lemma in_step_append_literal:
  assumes "in_step cr0 cid (out, s)"
  shows "in_step cr0 cid (append_literal out lit s)"
  using assms
  by (simp add: in_step_def append_literal_def close_all_formats_def all_closed_def
      append_to_active_ranges_def Let_def)

lemma in_step_start:
  assumes "in_step cr0 cid (out, s)"
  shows "in_step cr0 cid (out, start_comment_range s c)"
  using assms by (auto simp: in_step_def start_comment_range_def)

lemma in_step_end:
  assumes "in_step cr0 cid (out, s)" and "c \<noteq> cid"
  shows "in_step cr0 cid (out, end_comment_range s c)"
  using assms by (auto simp: in_step_def end_comment_range_def Let_def split: option.splits)

lemma in_step_reference:
  assumes "in_step cr0 cid (out, s)"
  shows "in_step cr0 cid (out, handle_comment_reference s c)"
  using assms by (auto simp: in_step_def handle_comment_reference_def split: option.splits)

lemma in_step_fold:
  assumes "\<And>x acc. x \<in> set xs \<Longrightarrow> in_step cr0 cid acc \<Longrightarrow> in_step cr0 cid (f x acc)"
    and "in_step cr0 cid acc"
  shows "in_step cr0 cid (fold f xs acc)"
  using assms by (induction xs arbitrary: acc) simp_all

lemma render_unformatted:
  assumes "unformatted cid node" and "in_step cr0 cid (out, st)"
  shows "in_step cr0 cid (render_node node new_RunContext out st)"
  using assms
proof (induction node arbitrary: out st)
  case (Element tg at tx ch)
  let ?node = "Element tg at tx ch"
  note IH = Element.IH and u = Element.prems(1) and i = Element.prems(2)
  have no: "tg \<noteq> qn (u ''ins'')" "tg \<noteq> qn (u ''del'')" "tg \<noteq> qn (u ''tbl'')"
    using u by (auto split: if_splits)
  consider (start) "tg = qn (u ''commentRangeStart'')"
    | (ending) "tg = qn (u ''commentRangeEnd'')"
    | (run) "tg = qn (u ''r'')"
    | (para) "tg = qn (u ''p'')"
    | (other) "tg \<noteq> qn (u ''commentRangeStart'')" "tg \<noteq> qn (u ''commentRangeEnd'')"
        "tg \<noteq> qn (u ''r'')" "tg \<noteq> qn (u ''p'')"
    by blast
  then show ?case
  proof cases
    case start
    then show ?thesis
      using i by (simp add: render_node.simps in_step_start split: option.splits)
  next
    case ending
    then show ?thesis
      using i u by (auto simp: render_node.simps in_step_end split: option.splits)
  next
    case run
    have rc: "get_run_context ?node = new_RunContext"
      and ch: "list_all (\<lambda>c. tag c \<in> set run_leaf_tags \<or> unformatted cid c) ch"
      using u run by simp_all
    have r: "render_node ?node new_RunContext out st =
      fold (\<lambda>child (out, s).
        if tag child = qn (u ''rPr'') then (out, s)
        else if tag child = qn (u ''commentReference'') then
          (case get child (qn (u ''id'')) of
             None \<Rightarrow> (out, s)
           | Some cid \<Rightarrow> if cid \<noteq> [] then (out, handle_comment_reference s cid) else (out, s))
        else if tag child \<in> set [qn (u ''t''), qn (u ''delText'')] then
          append_text out (leaf_text child) new_RunContext s
        else if tag child = qn (u ''tab'') then append_literal out [9] s
        else if tag child \<in> set [qn (u ''br''), qn (u ''cr'')] then append_literal out [10] s
        else if tag child = qn (u ''noBreakHyphen'') then append_text out [8209] new_RunContext s
        else if tag child = qn (u ''softHyphen'') then append_text out [173] new_RunContext s
        else render_node child new_RunContext out s) ch (out, st)"
      using run rc
      by (simp add: render_node.simps leaf_text_def new_RunContext_def Let_def cong: if_cong)
    show ?thesis
      unfolding r
    proof (rule in_step_fold [OF _ i])
      fix c acc
      assume c: "c \<in> set ch" and a: "in_step cr0 cid acc"
      obtain o1 s1 where acc: "acc = (o1, s1)" by (cases acc)
      have d: "tag c \<in> set run_leaf_tags \<or> unformatted cid c"
        using ch c by (simp add: list_all_iff)
      have rec: "tag c \<notin> set run_leaf_tags \<Longrightarrow> in_step cr0 cid (render_node c new_RunContext o1 s1)"
        using d IH [OF c] a acc by simp
      show "in_step cr0 cid (case acc of (out, s) \<Rightarrow>
        if tag c = qn (u ''rPr'') then (out, s)
        else if tag c = qn (u ''commentReference'') then
          (case get c (qn (u ''id'')) of
             None \<Rightarrow> (out, s)
           | Some cid \<Rightarrow> if cid \<noteq> [] then (out, handle_comment_reference s cid) else (out, s))
        else if tag c \<in> set [qn (u ''t''), qn (u ''delText'')] then
          append_text out (leaf_text c) new_RunContext s
        else if tag c = qn (u ''tab'') then append_literal out [9] s
        else if tag c \<in> set [qn (u ''br''), qn (u ''cr'')] then append_literal out [10] s
        else if tag c = qn (u ''noBreakHyphen'') then append_text out [8209] new_RunContext s
        else if tag c = qn (u ''softHyphen'') then append_text out [173] new_RunContext s
        else render_node c new_RunContext out s)"
        using a rec unfolding acc
        by (auto simp: in_step_reference in_step_append_text in_step_append_literal
            run_leaf_tags_def split: option.splits)
    qed
  next
    case para
    have ch: "list_all (\<lambda>c. tag c = qn (u ''pPr'') \<or> unformatted cid c) ch"
      using u para by simp
    have r: "render_node ?node new_RunContext out st =
      fold (\<lambda>child (out, s).
          if tag child = qn (u ''pPr'') then (out, s)
          else render_node child new_RunContext out s) ch (out, st)"
      using para by (simp add: render_node.simps)
    show ?thesis
      unfolding r
    proof (rule in_step_fold [OF _ i])
      fix c acc
      assume c: "c \<in> set ch" and a: "in_step cr0 cid acc"
      obtain o1 s1 where acc: "acc = (o1, s1)" by (cases acc)
      have d: "tag c = qn (u ''pPr'') \<or> unformatted cid c"
        using ch c by (simp add: list_all_iff)
      show "in_step cr0 cid (case acc of (out, s) \<Rightarrow>
          if tag c = qn (u ''pPr'') then (out, s)
          else render_node c new_RunContext out s)"
        using a d IH [OF c] unfolding acc by auto
    qed
  next
    case other
    have ch: "list_all (unformatted cid) ch"
      using u other no by simp
    have r: "render_node ?node new_RunContext out st =
      fold (\<lambda>child (out, s). render_node child new_RunContext out s) ch (out, st)"
      using other no by (simp add: render_node.simps)
    show ?thesis
      unfolding r
    proof (rule in_step_fold [OF _ i])
      fix c acc
      assume c: "c \<in> set ch" and a: "in_step cr0 cid acc"
      obtain o1 s1 where acc: "acc = (o1, s1)" by (cases acc)
      show "in_step cr0 cid (case acc of (out, s) \<Rightarrow> render_node c new_RunContext out s)"
        using a ch c IH [OF c] unfolding acc by (simp add: list_all_iff)
    qed
  qed
qed

lemma render_isolated_unformatted:
  assumes "list_all (unformatted cid) ch" and "active_comment_ranges st cid = Some cr0"
  shows "in_step cr0 cid (render_isolated ch new_RunContext st)"
  unfolding render_isolated_def
proof (rule in_step_fold)
  show "in_step cr0 cid (new_RenderOut, st)"
    using assms(2) by (simp add: in_step_def all_closed_def new_RenderOut_def)
next
  fix c acc
  assume c: "c \<in> set ch" and a: "in_step cr0 cid acc"
  obtain o1 s1 where acc: "acc = (o1, s1)" by (cases acc)
  show "in_step cr0 cid (case acc of (inner, s) \<Rightarrow> render_node c new_RunContext inner s)"
    using a assms(1) c render_unformatted [of cid c cr0 o1 s1] unfolding acc
    by (simp add: list_all_iff)
qed

lemma finish_all_closed: "all_closed out \<Longrightarrow> finish out = concat (parts out)"
  by (simp add: finish_def close_all_formats_def all_closed_def)

lemma render_node_revision:
  assumes "revision node l r"
  shows "render_node node ctx out st =
     (let (inner, st1) = render_isolated (children node) ctx st; t = finish inner
      in if t \<noteq> [] then append_literal out (l @ t @ r) st1 else (out, st1))"
proof -
  obtain tg at tx ch where n: "node = Element tg at tx ch" by (cases node)
  from assms show ?thesis
    unfolding revision_def n
    by (auto simp: render_node_ins render_node_del)
qed

lemma bold_run_context:
  "get_run_context (elem ''r'' [elem ''rPr'' [elem ''b'' []], text_leaf x])
     = \<lparr>highlight = False, bold = True, italic = False\<rparr>"
  by (simp add: get_run_context_def find_child_def elem_def text_leaf_def get_def)

lemma bold_run_text:
  "render_node (elem ''r'' [elem ''rPr'' [elem ''b'' []], text_leaf x]) new_RunContext out st
     = append_text out x \<lparr>highlight = False, bold = True, italic = False\<rparr> st"
  using bold_run_context [of x]
  by (simp add: render_node.simps elem_def [of "''r''"] text_leaf_def new_RunContext_def)

lemma bold_isolated:
  "render_isolated (children bold_ins) new_RunContext st
     = append_text new_RenderOut (u ''x'') \<lparr>highlight = False, bold = True, italic = False\<rparr> st"
  by (simp add: render_isolated_def bold_ins_def bold_run_text)

lemma bold_finish:
  "finish (fst (append_text new_RenderOut (u ''x'')
       \<lparr>highlight = False, bold = True, italic = False\<rparr> st)) = u ''**x**''"
  by (simp add: append_text_def new_RenderOut_def finish_def close_all_formats_def u_def)

lemma state_A_active:
  "active_comment_ranges state_A (u ''A'') = Some \<lparr>range_comment_id = u ''A'', text_parts = []\<rparr>"
  by (simp add: state_A_def start_comment_range_def new_RenderState_def)

lemma active_append_text:
  "t \<noteq> [] \<Longrightarrow>
   active_comment_ranges (snd (append_text out t ctx st)) cid =
     map_option (\<lambda>cr. cr\<lparr>text_parts := text_parts cr @ [t]\<rparr>) (active_comment_ranges st cid)"
  by (simp add: append_text_def append_to_active_ranges_def Let_def)

lemma bold_ins_render:
  "render_node bold_ins new_RunContext out st
     = append_literal out (u ''{+'' @ u ''**x**'' @ u ''+}'')
         (snd (append_text new_RenderOut (u ''x'')
                \<lparr>highlight = False, bold = True, italic = False\<rparr> st))"
proof -
  have "revision bold_ins (u ''{+'') (u ''+}'')"
    by (simp add: revision_def bold_ins_def)
  from render_node_revision [OF this, of new_RunContext out st] show ?thesis
    by (simp add: bold_isolated bold_finish split_beta)
qed

lemma tag_text_leaf: "tag (text_leaf x) = qn (u ''t'')"
  by (simp add: text_leaf_def)

lemma tab_run_context:
  "get_run_context (Element (qn (u ''r'')) [] None
      [text_leaf (u ''a''), elem ''tab'' [], text_leaf (u ''b'')]) = new_RunContext"
  by (simp add: get_run_context_def find_child_def tag_text_leaf)

lemma tab_run:
  "render_node (elem ''r'' [text_leaf (u ''a''), elem ''tab'' [], text_leaf (u ''b'')])
       new_RunContext new_RenderOut st
     = (new_RenderOut\<lparr>parts := [u ''a'', [9], u ''b'']\<rparr>,
        append_to_active_ranges (append_to_active_ranges (append_to_active_ranges st (u ''a'')) [9])
          (u ''b''))"
  by (simp add: render_node.simps elem_def text_leaf_def get_run_context_def find_child_def
      new_RunContext_def append_text_def append_literal_def close_all_formats_def
      new_RenderOut_def)

lemma tab_isolated:
  "render_isolated (children tab_ins) new_RunContext st
     = (new_RenderOut\<lparr>parts := [u ''a'', [9], u ''b'']\<rparr>,
        append_to_active_ranges (append_to_active_ranges (append_to_active_ranges st (u ''a'')) [9])
          (u ''b''))"
  by (simp add: render_isolated_def tab_ins_def tab_run)

lemma tab_finish: "finish (new_RenderOut\<lparr>parts := [u ''a'', [9], u ''b'']\<rparr>) = u ''a'' @ [9] @ u ''b''"
  by (simp add: finish_def close_all_formats_def new_RenderOut_def)

lemma tab_ins_unformatted: "list_all (unformatted (u ''A'')) (children tab_ins)"
  by (simp add: tab_ins_def elem_def [of "''r''"] tab_run_context run_leaf_tags_def tag_text_leaf)

text \<open>
  C9, as the program has it.  For an insertion or a deletion whose inner text \<open>t\<close> is not
  empty, every range that is active once the children have been rendered receives the
  wrapped literal (\<open>"{+t+}"\<close> or \<open>"[-t-]"\<close>) as one more fragment, after whatever it
  received while the children were rendered into the isolated buffer.  When the revision
  is rendered without inherited formatting and its content is unformatted for the range,
  what the range received while the children were rendered is, fragment by fragment,
  what the isolated buffer received, and that concatenates to \<open>t\<close>: a range that was
  active before the node has then received \<open>t\<close> as raw fragments followed by the wrapped
  \<open>t\<close>.
\<close>

theorem revision_text_reaches_ranges:
  assumes "revision node l r"
  shows "(render_isolated (children node) ctx st = (inner, st1) \<and> finish inner \<noteq> []
            \<and> active_comment_ranges st1 cid = Some cr \<longrightarrow>
          active_comment_ranges (snd (render_node node ctx out st)) cid
            = Some (cr\<lparr>text_parts := text_parts cr @ [l @ finish inner @ r]\<rparr>))
       \<and> (render_isolated (children node) new_RunContext st = (inner0, st2)
            \<and> finish inner0 \<noteq> [] \<and> list_all (unformatted cid) (children node)
            \<and> active_comment_ranges st cid = Some cr0 \<longrightarrow>
          concat (parts inner0) = finish inner0
          \<and> active_comment_ranges st2 cid
            = Some (cr0\<lparr>text_parts := text_parts cr0 @ parts inner0\<rparr>)
          \<and> active_comment_ranges (snd (render_node node new_RunContext out st)) cid
            = Some (cr0\<lparr>text_parts := text_parts cr0 @ parts inner0
                     @ [l @ finish inner0 @ r]\<rparr>))"
proof (intro conjI impI)
  assume a: "render_isolated (children node) ctx st = (inner, st1) \<and> finish inner \<noteq> []
            \<and> active_comment_ranges st1 cid = Some cr"
  then have "render_node node ctx out st = append_literal out (l @ finish inner @ r) st1"
    by (simp add: render_node_revision [OF assms])
  then show "active_comment_ranges (snd (render_node node ctx out st)) cid
      = Some (cr\<lparr>text_parts := text_parts cr @ [l @ finish inner @ r]\<rparr>)"
    using a active_append_literal [of "l @ finish inner @ r" out st1 cid] by simp
next
  assume b: "render_isolated (children node) new_RunContext st = (inner0, st2)
            \<and> finish inner0 \<noteq> [] \<and> list_all (unformatted cid) (children node)
            \<and> active_comment_ranges st cid = Some cr0"
  then have "in_step cr0 cid (inner0, st2)"
    using render_isolated_unformatted [of cid "children node" st cr0] by simp
  then have c: "all_closed inner0"
    and s: "active_comment_ranges st2 cid = Some (cr0\<lparr>text_parts := text_parts cr0 @ parts inner0\<rparr>)"
    by (simp_all add: in_step_def)
  show "concat (parts inner0) = finish inner0"
    using c by (simp add: finish_all_closed)
  show "active_comment_ranges st2 cid = Some (cr0\<lparr>text_parts := text_parts cr0 @ parts inner0\<rparr>)"
    by (rule s)
  have "render_node node new_RunContext out st = append_literal out (l @ finish inner0 @ r) st2"
    using b by (simp add: render_node_revision [OF assms])
  then show "active_comment_ranges (snd (render_node node new_RunContext out st)) cid
      = Some (cr0\<lparr>text_parts := text_parts cr0 @ parts inner0 @ [l @ finish inner0 @ r]\<rparr>)"
    using b s active_append_literal [of "l @ finish inner0 @ r" out st2 cid] by simp
qed

theorem revision_text_reaches_ranges_witness:
  "revision tab_ins (u ''{+'') (u ''+}'')
   \<and> list_all (unformatted (u ''A'')) (children tab_ins)
   \<and> active_comment_ranges state_A (u ''A'') = Some \<lparr>range_comment_id = u ''A'', text_parts = []\<rparr>
   \<and> finish (fst (render_isolated (children tab_ins) new_RunContext state_A)) = u ''a'' @ [9] @ u ''b''
   \<and> parts (fst (render_isolated (children tab_ins) new_RunContext state_A)) = [u ''a'', [9], u ''b'']
   \<and> active_comment_ranges (snd (render_node tab_ins new_RunContext new_RenderOut state_A)) (u ''A'')
       = Some \<lparr>range_comment_id = u ''A'',
               text_parts = [u ''a'', [9], u ''b'', u ''{+'' @ u ''a'' @ [9] @ u ''b'' @ u ''+}'']\<rparr>"
proof -
  have r: "revision tab_ins (u ''{+'') (u ''+}'')"
    by (simp add: revision_def tab_ins_def)
  have i: "render_isolated (children tab_ins) new_RunContext state_A
      = (fst (render_isolated (children tab_ins) new_RunContext state_A),
         snd (render_isolated (children tab_ins) new_RunContext state_A))"
    by simp
  have f: "finish (fst (render_isolated (children tab_ins) new_RunContext state_A)) = u ''a'' @ [9] @ u ''b''"
    "parts (fst (render_isolated (children tab_ins) new_RunContext state_A)) = [u ''a'', [9], u ''b'']"
    by (simp_all add: tab_isolated tab_finish)
  have s: "active_comment_ranges (snd (render_isolated (children tab_ins) new_RunContext state_A)) (u ''A'')
      = Some \<lparr>range_comment_id = u ''A'', text_parts = [u ''a'', [9], u ''b'']\<rparr>"
    by (simp add: tab_isolated append_to_active_ranges_def state_A_active)
  show ?thesis
    using revision_text_reaches_ranges [OF r, where ctx = new_RunContext and st = state_A
        and inner = "fst (render_isolated (children tab_ins) new_RunContext state_A)"
        and ?st1.0 = "snd (render_isolated (children tab_ins) new_RunContext state_A)"
        and inner0 = "fst (render_isolated (children tab_ins) new_RunContext state_A)"
        and ?st2.0 = "snd (render_isolated (children tab_ins) new_RunContext state_A)"
        and cid = "u ''A''" and cr = "\<lparr>range_comment_id = u ''A'', text_parts = [u ''a'', [9], u ''b'']\<rparr>"
        and ?cr0.0 = "\<lparr>range_comment_id = u ''A'', text_parts = []\<rparr>"
        and out = new_RenderOut]
      r tab_ins_unformatted
    by (simp add: f s state_A_active)
qed


text \<open>
  With a bold run inside the insertion the inner text is \<open>**x**\<close> while the range receives
  the raw \<open>x\<close> and then \<open>{+**x**+}\<close>: the accumulated text is not the inner text followed
  by the wrapped inner text.
\<close>

theorem bold_insertion_not_duplicated:
  "tag bold_ins = qn (u ''ins'')
   \<and> active_comment_ranges state_A (u ''A'') = Some \<lparr>range_comment_id = u ''A'', text_parts = []\<rparr>
   \<and> finish (fst (render_isolated (children bold_ins) new_RunContext state_A)) = u ''**x**''
   \<and> map_option text_parts
        (active_comment_ranges (snd (render_node bold_ins new_RunContext new_RenderOut state_A)) (u ''A''))
       = Some [u ''x'', u ''{+**x**+}'']
   \<and> concat [u ''x'', u ''{+**x**+}''] \<noteq> u ''**x**'' @ u ''{+'' @ u ''**x**'' @ u ''+}''"
proof -
  have 1: "finish (fst (render_isolated (children bold_ins) new_RunContext state_A)) = u ''**x**''"
    by (simp add: bold_isolated bold_finish)
  have 2: "map_option text_parts
        (active_comment_ranges (snd (render_node bold_ins new_RunContext new_RenderOut state_A)) (u ''A''))
       = Some [u ''x'', u ''{+'' @ u ''**x**'' @ u ''+}'']"
    by (simp add: bold_ins_render active_append_literal active_append_text state_A_active)
  have 3: "u ''{+'' @ u ''**x**'' @ u ''+}'' = u ''{+**x**+}''"
    by (simp add: u_def)
  have 4: "concat [u ''x'', u ''{+**x**+}''] \<noteq> u ''**x**'' @ u ''{+'' @ u ''**x**'' @ u ''+}''"
    by (simp add: u_def)
  show ?thesis
    using 1 2 4 by (simp add: 3 state_A_active bold_ins_def)
qed

section \<open>Properties of the document assembler\<close>

lemma tag_elem_id [simp]: "tag (elem_id n c) = qn (u n)"
  by (simp add: elem_id_def)

lemma range_start_node:
  "render_node (elem_id ''commentRangeStart'' (u ''1'')) ctx out st = (out, start_comment_range st (u ''1''))"
  by (simp add: render_node.simps elem_id_def get_def)

lemma range_end_node:
  "render_node (elem_id ''commentRangeEnd'' (u ''1'')) ctx out st = (out, end_comment_range st (u ''1''))"
  by (simp add: render_node.simps elem_id_def get_def)

lemma reference_run:
  "render_node (elem ''r'' [elem_id ''commentReference'' (u ''1'')]) ctx out st
     = (out, handle_comment_reference st (u ''1''))"
  by (simp add: render_node.simps elem_def elem_id_def get_def)

lemma open_paragraph_node:
  "render_node open_paragraph new_RunContext out st =
     (let (out1, st1) = append_text out (u ''hello'') new_RunContext (start_comment_range st (u ''1''))
      in (out1, handle_comment_reference st1 (u ''1'')))"
  by (simp add: open_paragraph_def render_node.simps elem_def [of "''p''"] range_start_node
      run_text reference_run split_beta)

lemma closed_paragraph_node:
  "render_node closed_paragraph new_RunContext out st =
     (let (out1, st1) = append_text out (u ''hello'') new_RunContext (start_comment_range st (u ''1''))
      in (out1, handle_comment_reference (end_comment_range st1 (u ''1'')) (u ''1'')))"
  by (simp add: closed_paragraph_def render_node.simps elem_def [of "''p''"] range_start_node
      range_end_node run_text reference_run split_beta)

lemma hello_strip: "py_rstrip (u ''hello'') = u ''hello''" "py_strip (u ''hello'') = u ''hello''"
  "py_split (u ''hello'') = [u ''hello'']"
  by (simp_all add: py_rstrip_def py_strip_def py_lstrip_def py_split_def py_isspace_def u_def)

lemma open_content:
  "render_paragraph_content open_paragraph state0 = (u ''hello'', state_open)"
  by (simp add: render_paragraph_content.simps open_paragraph_node finish_text hello_strip
      split_beta state_open_def)

lemma closed_content:
  "render_paragraph_content closed_paragraph state0 = (u ''hello'', state_closed)"
  by (simp add: render_paragraph_content.simps closed_paragraph_node finish_text hello_strip
      split_beta state_closed_def)

lemma snd_append_text:
  "snd (append_text out t ctx st) = (if t = [] then st else append_to_active_ranges st t)"
  by (simp add: append_text_def Let_def)

lemma state_open_eq:
  "state_open = append_to_active_ranges (start_comment_range state0 (u ''1'')) (u ''hello'')"
  by (simp add: state_open_def snd_append_text handle_comment_reference_def
      append_to_active_ranges_def start_comment_range_def state0_def new_RenderState_def)

lemma state_open_facts:
  "collected_comments state_open = []"
  "map_option text_parts (active_comment_ranges state_open (u ''1'')) = Some [u ''hello'']"
  by (simp_all add: state_open_eq append_to_active_ranges_def start_comment_range_def
      state0_def new_RenderState_def)

lemma state_closed_facts:
  "collected_comments state_closed =
     [\<lparr>cc_comment_id = u ''1'', cc_author = Some (u ''Alice''), cc_date = Some (u ''2024-01-02''),
       original_text = u ''hello'', comment_text = u ''fix this''\<rparr>]"
proof -
  let ?s2 = "append_to_active_ranges (start_comment_range state0 (u ''1'')) (u ''hello'')"
  have a: "active_comment_ranges ?s2 (u ''1'')
      = Some \<lparr>range_comment_id = u ''1'', text_parts = [u ''hello'']\<rparr>"
    and c: "comments ?s2 (u ''1'') = Some alice" and e: "emitted_comment_ids ?s2 = {}"
    and q: "collected_comments ?s2 = []"
    by (simp_all add: append_to_active_ranges_def start_comment_range_def state0_def
        new_RenderState_def registry1_def)
  have n: "py_join (u '' '') (py_split (py_strip (u ''hello''))) = u ''hello''"
    by (simp add: hello_strip)
  have "collected_comments (end_comment_range ?s2 (u ''1''))
      = [\<lparr>cc_comment_id = u ''1'', cc_author = Some (u ''Alice''), cc_date = Some (u ''2024-01-02''),
          original_text = u ''hello'', comment_text = u ''fix this''\<rparr>]"
    and "u ''1'' \<in> emitted_comment_ids (end_comment_range ?s2 (u ''1''))"
    using a c e q n by (simp_all add: end_comment_range_def Let_def alice_def)
  then show ?thesis
    by (simp add: state_closed_def snd_append_text handle_comment_reference_def)
qed


lemma no_props: "get_paragraph_props open_paragraph = Inr new_ParagraphProps"
  "get_paragraph_props closed_paragraph = Inr new_ParagraphProps"
  by (simp_all add: get_paragraph_props_def find_child_def open_paragraph_def
      closed_paragraph_def elem_def elem_id_def)

lemma open_lines:
  "render_paragraph open_paragraph state0 = Inr ([u ''hello''], state_open)"
proof -
  have p: "pop_collected_comments state_open = ([], state_open)"
    using state_open_facts(1) by (simp add: pop_collected_comments_def)
  show ?thesis
    by (simp add: render_paragraph_def no_props open_content p new_ParagraphProps_def
        get_heading_level_def comment_lines_def)
qed

lemma closed_lines:
  "render_paragraph closed_paragraph state0
     = Inr ([u ''hello'', [], format_comment_block alice_hello],
            state_closed\<lparr>collected_comments := []\<rparr>)"
proof -
  have p: "pop_collected_comments state_closed
      = ([alice_hello], state_closed\<lparr>collected_comments := []\<rparr>)"
    using state_closed_facts by (simp add: pop_collected_comments_def alice_hello_def)
  show ?thesis
    by (simp add: render_paragraph_def no_props closed_content p new_ParagraphProps_def
        get_heading_level_def comment_lines_def)
qed

lemma find_body:
  "List.find (\<lambda>c. tag c = qn (u ''body'')) (descendants (document p)) = Some (elem ''body'' [p])"
  by (simp add: document_def elem_def)

lemma alice_block: "format_comment_block alice_hello = alice_block"
  by (simp add: format_comment_block_def alice_hello_def alice_block_def u_def)

lemma alice_block_rstrip:
  "py_rstrip (u ''hello'' @ 10 # 10 # alice_block) = u ''hello'' @ 10 # 10 # alice_block"
  by (simp add: py_rstrip_def py_isspace_def alice_block_def u_def)

text \<open>
  C1 asks that a range which is still active when the body has been traversed is flushed
  as a trailing annotation block.  \<open>linearize_docx\<close> drains the queue of collected
  comments only.  For the paragraph that opens the range of comment 1 around \<open>hello\<close>
  and never closes it, the output is the text alone: the range is still active and holds
  its text, and no block is written.  With the range closed the block follows the text.
\<close>

theorem unterminated_range_is_lost:
  "linearize_docx (Some (document open_paragraph)) registry1 no_numbering no_styles
     = Inr (u ''hello'' @ [10])
   \<and> map_option text_parts (active_comment_ranges state_open (u ''1'')) = Some [u ''hello'']
   \<and> linearize_docx (Some (document closed_paragraph)) registry1 no_numbering no_styles
     = Inr (u ''hello'' @ [10, 10] @ alice_block @ [10])"
proof -
  have t: "tag open_paragraph = qn (u ''p'')" "tag closed_paragraph = qn (u ''p'')"
    by (simp_all add: open_paragraph_def closed_paragraph_def)
  have p: "pop_collected_comments state_open = ([], state_open)"
    using state_open_facts(1) by (simp add: pop_collected_comments_def)
  have 1: "linearize_docx (Some (document open_paragraph)) registry1 no_numbering no_styles
     = Inr (u ''hello'' @ [10])"
    using open_lines
    by (simp add: linearize_docx_def find_body state0_def [symmetric] t p
        comment_lines_def hello_strip)
  have 2: "linearize_docx (Some (document closed_paragraph)) registry1 no_numbering no_styles
     = Inr (u ''hello'' @ [10, 10] @ alice_block @ [10])"
    using closed_lines
    by (simp add: linearize_docx_def find_body state0_def [symmetric] t
        pop_collected_comments_def comment_lines_def alice_block alice_block_rstrip)
  show ?thesis
    using 1 2 state_open_facts(2) by simp
qed

end
